theory Spec2Isabelle
  imports Main "HOL-Library.Char_ord" "HOL-Library.List_Lexorder" "HOL-Library.Multiset"
begin

section \<open>Syntax trees\<close>

text \<open>
  The analyzer works on the trees of Python's \<^verbatim>\<open>ast\<close> module. A node is an object of one
  class with named fields; the model has one constructor for every class that the analyzer
  tests with \<^verbatim>\<open>isinstance\<close> or whose fields it reads, with the fields in the order of the
  class's \<^verbatim>\<open>_fields\<close>, and the constructor \<open>Other\<close> (class name, child nodes in field
  order) for every other class: \<^verbatim>\<open>Compare\<close>, \<^verbatim>\<open>UnaryOp\<close>, \<^verbatim>\<open>AsyncFor\<close>, \<^verbatim>\<open>AsyncWith\<close>,
  \<^verbatim>\<open>TryStar\<close>, \<^verbatim>\<open>match_case\<close>, \<^verbatim>\<open>withitem\<close>, \<^verbatim>\<open>keyword\<close>, \<^verbatim>\<open>Lambda\<close>, the comprehensions
  and so on. The fieldless marker objects (\<^verbatim>\<open>Load\<close>, \<^verbatim>\<open>Store\<close>, \<^verbatim>\<open>And\<close>, \<^verbatim>\<open>Gt\<close>, \<^verbatim>\<open>USub\<close>,
  ...) are not nodes of the model: no test of the analyzer matches them and they have no
  children. Line numbers are kept where the analyzer reads them.
\<close>

datatype const = CStr string | CInt int | CBool bool | CNone | COther string

datatype ast =
    Module "ast list"
  | FunctionDef string ast "ast list" "ast list" "ast option" int "int option"
  | AsyncFunctionDef string ast "ast list" "ast list" "ast option" int "int option"
  | ClassDef string "ast list" "ast list" "ast list" "ast list" int "int option"
  | Arguments "ast list" "ast list" "ast option" "ast list" "ast option list" "ast option" "ast list"
  | Arg string "ast option"
  | Return "ast option"
  | Assign "ast list" ast int
  | AugAssign ast ast
  | AnnAssign ast ast "ast option" int
  | For ast ast "ast list" "ast list"
  | While ast "ast list" "ast list"
  | If ast "ast list" "ast list"
  | With "ast list" "ast list"
  | Match ast "ast list"
  | Raise "ast option" "ast option"
  | Try "ast list" "ast list" "ast list" "ast list"
  | ExceptHandler "ast option" "ast list"
  | Assert ast "ast option"
  | Import "ast list" int
  | ImportFrom "string option" "ast list" int
  | Alias string "string option"
  | Global "string list"
  | Nonlocal "string list"
  | Expr ast
  | BoolOp "ast list"
  | IfExp ast ast ast
  | Yield "ast option"
  | YieldFrom ast
  | Call ast "ast list" "ast list"
  | Constant const
  | Attribute ast string
  | Subscript ast ast
  | Name string
  | PyList "ast list"
  | Tuple "ast list"
  | Other string "ast list"

text \<open>
  Field layout, as in the \<^verbatim>\<open>ast\<close> grammar:
  \<open>FunctionDef name args body decorator_list returns lineno end_lineno\<close>,
  \<open>ClassDef name bases keywords body decorator_list lineno end_lineno\<close>,
  \<open>Arguments posonlyargs args vararg kwonlyargs kw_defaults kwarg defaults\<close>,
  \<open>Arg arg annotation\<close>, \<open>Assign targets value lineno\<close>, \<open>AugAssign target value\<close>,
  \<open>AnnAssign target annotation value lineno\<close>, \<open>For target iter body orelse\<close>,
  \<open>While test body orelse\<close>, \<open>If test body orelse\<close>, \<open>With items body\<close>,
  \<open>Match subject cases\<close>, \<open>Raise exc cause\<close>, \<open>Try body handlers orelse finalbody\<close>,
  \<open>ExceptHandler type body\<close>, \<open>Assert test msg\<close>, \<open>Import names lineno\<close>,
  \<open>ImportFrom module names lineno\<close>, \<open>Alias name asname\<close>, \<open>BoolOp values\<close>,
  \<open>IfExp test body orelse\<close>, \<open>Call func args keywords\<close>, \<open>Attribute value attr\<close>,
  \<open>Subscript value slice\<close>, \<open>Name id\<close>, \<open>PyList elts\<close>, \<open>Tuple elts\<close>.
\<close>

fun opt :: "'a option \<Rightarrow> 'a list" where
  "opt None = []"
| "opt (Some x) = [x]"

text \<open>
  \<^verbatim>\<open>ast.iter_child_nodes\<close>: the fields in order; a field that is a node is yielded, a field
  that is a list yields its items that are nodes (\<^verbatim>\<open>kw_defaults\<close> holds \<^verbatim>\<open>None\<close> entries,
  \<^verbatim>\<open>Global.names\<close> holds strings).
\<close>

fun iter_child_nodes :: "ast \<Rightarrow> ast list" where
  "iter_child_nodes (Module body) = body"
| "iter_child_nodes (FunctionDef name args body decos returns l e) =
     args # body @ decos @ opt returns"
| "iter_child_nodes (AsyncFunctionDef name args body decos returns l e) =
     args # body @ decos @ opt returns"
| "iter_child_nodes (ClassDef name bases kws body decos l e) = bases @ kws @ body @ decos"
| "iter_child_nodes (Arguments posonly args vararg kwonly kw_defaults kwarg defaults) =
     posonly @ args @ opt vararg @ kwonly @ concat (map opt kw_defaults) @ opt kwarg @ defaults"
| "iter_child_nodes (Arg a ann) = opt ann"
| "iter_child_nodes (Return v) = opt v"
| "iter_child_nodes (Assign targets v l) = targets @ [v]"
| "iter_child_nodes (AugAssign t v) = [t, v]"
| "iter_child_nodes (AnnAssign t ann v l) = t # ann # opt v"
| "iter_child_nodes (For t it body orelse) = t # it # body @ orelse"
| "iter_child_nodes (While t body orelse) = t # body @ orelse"
| "iter_child_nodes (If t body orelse) = t # body @ orelse"
| "iter_child_nodes (With items body) = items @ body"
| "iter_child_nodes (Match subject cases) = subject # cases"
| "iter_child_nodes (Raise exc cause) = opt exc @ opt cause"
| "iter_child_nodes (Try body handlers orelse finalbody) = body @ handlers @ orelse @ finalbody"
| "iter_child_nodes (ExceptHandler ty body) = opt ty @ body"
| "iter_child_nodes (Assert t msg) = t # opt msg"
| "iter_child_nodes (Import names l) = names"
| "iter_child_nodes (ImportFrom m names l) = names"
| "iter_child_nodes (Alias n a) = []"
| "iter_child_nodes (Global names) = []"
| "iter_child_nodes (Nonlocal names) = []"
| "iter_child_nodes (Expr v) = [v]"
| "iter_child_nodes (BoolOp vals) = vals"
| "iter_child_nodes (IfExp t b e) = [t, b, e]"
| "iter_child_nodes (Yield v) = opt v"
| "iter_child_nodes (YieldFrom v) = [v]"
| "iter_child_nodes (Call f args kws) = f # args @ kws"
| "iter_child_nodes (Constant c) = []"
| "iter_child_nodes (Attribute v a) = [v]"
| "iter_child_nodes (Subscript v s) = [v, s]"
| "iter_child_nodes (Name i) = []"
| "iter_child_nodes (PyList elts) = elts"
| "iter_child_nodes (Tuple elts) = elts"
| "iter_child_nodes (Other c kids) = kids"

text \<open>
  The queue of \<^verbatim>\<open>ast.walk\<close> empties: every node weighs more than its children together.
\<close>

definition node_weight :: "ast \<Rightarrow> nat" where
  "node_weight n = 3 * size n + 1"

lemma weight_list: "sum_list (map node_weight xs) \<le> 3 * size_list size xs"
  by (induction xs) (auto simp: node_weight_def)

lemma weight_opt: "sum_list (map node_weight (opt v)) \<le> 3 * size_option size v"
  by (cases v) (auto simp: node_weight_def)

lemma weight_opts:
  "sum_list (map node_weight (concat (map opt vs))) \<le> 3 * size_list (size_option size) vs"
proof (induction vs)
  case Nil
  show ?case by simp
next
  case (Cons v vs)
  have "sum_list (map node_weight (opt v)) \<le> 3 * size_option size v" by (rule weight_opt)
  with Cons show ?case by simp
qed

lemma weight_list_less: "sum_list (map node_weight xs) < 4 + 3 * size_list size xs"
  using weight_list [of xs] by simp

lemma weight_opt_less: "sum_list (map node_weight (opt v)) < 4 + 3 * size_option size v"
  using weight_opt [of v] by simp

lemma children_lighter: "sum_list (map node_weight (iter_child_nodes n)) < node_weight n"
proof (cases n)
  case (Arguments posonly args vararg kwonly kw_defaults kwarg defaults)
  have "sum_list (map node_weight posonly) \<le> 3 * size_list size posonly"
    "sum_list (map node_weight args) \<le> 3 * size_list size args"
    "sum_list (map node_weight (opt vararg)) \<le> 3 * size_option size vararg"
    "sum_list (map node_weight kwonly) \<le> 3 * size_list size kwonly"
    "sum_list (map node_weight (concat (map opt kw_defaults)))
       \<le> 3 * size_list (size_option size) kw_defaults"
    "sum_list (map node_weight (opt kwarg)) \<le> 3 * size_option size kwarg"
    "sum_list (map node_weight defaults) \<le> 3 * size_list size defaults"
    by (rule weight_list weight_opt weight_opts)+
  with Arguments show ?thesis by (simp add: node_weight_def)
next
  case (FunctionDef name args body decos returns l e)
  have "sum_list (map node_weight body) \<le> 3 * size_list size body"
    "sum_list (map node_weight decos) \<le> 3 * size_list size decos"
    "sum_list (map node_weight (opt returns)) \<le> 3 * size_option size returns"
    by (rule weight_list weight_opt)+
  with FunctionDef show ?thesis by (simp add: node_weight_def)
next
  case (AsyncFunctionDef name args body decos returns l e)
  have "sum_list (map node_weight body) \<le> 3 * size_list size body"
    "sum_list (map node_weight decos) \<le> 3 * size_list size decos"
    "sum_list (map node_weight (opt returns)) \<le> 3 * size_option size returns"
    by (rule weight_list weight_opt)+
  with AsyncFunctionDef show ?thesis by (simp add: node_weight_def)
next
  case (ClassDef name bases kws body decos l e)
  have "sum_list (map node_weight bases) \<le> 3 * size_list size bases"
    "sum_list (map node_weight kws) \<le> 3 * size_list size kws"
    "sum_list (map node_weight body) \<le> 3 * size_list size body"
    "sum_list (map node_weight decos) \<le> 3 * size_list size decos"
    by (rule weight_list)+
  with ClassDef show ?thesis by (simp add: node_weight_def)
next
  case (Try body handlers orelse finalbody)
  have "sum_list (map node_weight body) \<le> 3 * size_list size body"
    "sum_list (map node_weight handlers) \<le> 3 * size_list size handlers"
    "sum_list (map node_weight orelse) \<le> 3 * size_list size orelse"
    "sum_list (map node_weight finalbody) \<le> 3 * size_list size finalbody"
    by (rule weight_list)+
  with Try show ?thesis by (simp add: node_weight_def)
next
  case (For t it body orelse)
  have "sum_list (map node_weight body) \<le> 3 * size_list size body"
    "sum_list (map node_weight orelse) \<le> 3 * size_list size orelse"
    by (rule weight_list)+
  with For show ?thesis by (simp add: node_weight_def)
next
  case (While t body orelse)
  have "sum_list (map node_weight body) \<le> 3 * size_list size body"
    "sum_list (map node_weight orelse) \<le> 3 * size_list size orelse"
    by (rule weight_list)+
  with While show ?thesis by (simp add: node_weight_def)
next
  case (If t body orelse)
  have "sum_list (map node_weight body) \<le> 3 * size_list size body"
    "sum_list (map node_weight orelse) \<le> 3 * size_list size orelse"
    by (rule weight_list)+
  with If show ?thesis by (simp add: node_weight_def)
next
  case (With items body)
  have "sum_list (map node_weight items) \<le> 3 * size_list size items"
    "sum_list (map node_weight body) \<le> 3 * size_list size body"
    by (rule weight_list)+
  with With show ?thesis by (simp add: node_weight_def)
next
  case (Call f args kws)
  have "sum_list (map node_weight args) \<le> 3 * size_list size args"
    "sum_list (map node_weight kws) \<le> 3 * size_list size kws"
    by (rule weight_list)+
  with Call show ?thesis by (simp add: node_weight_def)
next
  case (Raise exc cause)
  have "sum_list (map node_weight (opt exc)) \<le> 3 * size_option size exc"
    "sum_list (map node_weight (opt cause)) \<le> 3 * size_option size cause"
    by (rule weight_opt)+
  with Raise show ?thesis by (simp add: node_weight_def)
next
  case (ExceptHandler ty body)
  have "sum_list (map node_weight (opt ty)) \<le> 3 * size_option size ty"
    "sum_list (map node_weight body) \<le> 3 * size_list size body"
    by (rule weight_opt weight_list)+
  with ExceptHandler show ?thesis by (simp add: node_weight_def)
next
  case (Assign targets v l)
  have "sum_list (map node_weight targets) \<le> 3 * size_list size targets"
    by (rule weight_list)
  with Assign show ?thesis by (simp add: node_weight_def)
next
  case (AnnAssign t ann v l)
  have "sum_list (map node_weight (opt v)) \<le> 3 * size_option size v"
    by (rule weight_opt)
  with AnnAssign show ?thesis by (simp add: node_weight_def)
next
  case (Match subject cases)
  have "sum_list (map node_weight cases) \<le> 3 * size_list size cases"
    by (rule weight_list)
  with Match show ?thesis by (simp add: node_weight_def)
next
  case (Assert t msg)
  have "sum_list (map node_weight (opt msg)) \<le> 3 * size_option size msg"
    by (rule weight_opt)
  with Assert show ?thesis by (simp add: node_weight_def)
qed (simp_all add: node_weight_def weight_list_less weight_opt_less)

text \<open>
  \<^verbatim>\<open>ast.walk\<close>: breadth first, from a queue that starts with the node; each node taken from
  the front is yielded and its children are appended at the back.
\<close>

function walk_queue :: "ast list \<Rightarrow> ast list" where
  "walk_queue [] = []"
| "walk_queue (n # todo) = n # walk_queue (todo @ iter_child_nodes n)"
  by pat_completeness auto
termination
proof (relation "measure (\<lambda>q. sum_list (map node_weight q))")
  show "wf (measure (\<lambda>q. sum_list (map node_weight q)))" by simp
next
  fix n :: ast and todo :: "ast list"
  have "sum_list (map node_weight (iter_child_nodes n)) < node_weight n"
    by (rule children_lighter)
  then show "(todo @ iter_child_nodes n, n # todo)
      \<in> measure (\<lambda>q. sum_list (map node_weight q))"
    by simp
qed

definition walk :: "ast \<Rightarrow> ast list" where
  "walk node = walk_queue [node]"


text \<open>
  The nodes of a tree in depth-first order. The analyzer never walks in this order; it is
  the reference against which the breadth-first walk is measured: both visit the same
  nodes, each as often.
\<close>

function subnodes :: "ast \<Rightarrow> ast list" where
  "subnodes n = n # concat (map subnodes (iter_child_nodes n))"
  by pat_completeness auto
termination
proof (relation "measure node_weight")
  show "wf (measure node_weight)" by simp
next
  fix n c :: ast
  assume "c \<in> set (iter_child_nodes n)"
  then have "node_weight c \<le> sum_list (map node_weight (iter_child_nodes n))"
    by (simp add: member_le_sum_list)
  also have "\<dots> < node_weight n" by (rule children_lighter)
  finally show "(c, n) \<in> measure node_weight" by simp
qed

declare subnodes.simps [simp del]

section \<open>Complexity metrics\<close>

text \<open>
  \<^verbatim>\<open>_cyclomatic_complexity\<close>: the counter starts at 1 and every node of the walk adds the
  amount of its branch of the \<^verbatim>\<open>isinstance\<close> chain.
\<close>

fun cc_increment :: "ast \<Rightarrow> int" where
  "cc_increment (If t b e) = 1"
| "cc_increment (IfExp t b e) = 1"
| "cc_increment (For t i b e) = 1"
| "cc_increment (While t b e) = 1"
| "cc_increment (ExceptHandler t b) = 1"
| "cc_increment (With i b) = 1"
| "cc_increment (Assert t m) = 1"
| "cc_increment (BoolOp vals) = int (length vals) - 1"
| "cc_increment (Match s cases) = int (length cases)"
| "cc_increment _ = 0"

definition cyclomatic_complexity :: "ast \<Rightarrow> int" where
  "cyclomatic_complexity node =
     foldl (\<lambda>count child. count + cc_increment child) 1 (walk node)"

text \<open>
  \<^verbatim>\<open>_cognitive_complexity\<close>: recursion over the children; a conditional statement, a loop,
  a handler or a match adds \<open>1 + depth\<close> and is entered one level deeper, a boolean chain
  adds its operand count less one.
\<close>

function cognitive_complexity :: "ast \<Rightarrow> int \<Rightarrow> int" where
  "cognitive_complexity node depth =
     sum_list (map (\<lambda>child.
       (case child of
          If t b e \<Rightarrow> 1 + depth + cognitive_complexity child (depth + 1)
        | For t i b e \<Rightarrow> 1 + depth + cognitive_complexity child (depth + 1)
        | While t b e \<Rightarrow> 1 + depth + cognitive_complexity child (depth + 1)
        | ExceptHandler t b \<Rightarrow> 1 + depth + cognitive_complexity child (depth + 1)
        | Match s cases \<Rightarrow> 1 + depth + cognitive_complexity child (depth + 1)
        | BoolOp vals \<Rightarrow> int (length vals) - 1 + cognitive_complexity child depth
        | _ \<Rightarrow> cognitive_complexity child depth))
       (iter_child_nodes node))"
  by pat_completeness auto
termination
proof (relation "measure (\<lambda>(n, d). node_weight n)")
  show "wf (measure (\<lambda>(n, d). node_weight n))" by simp
qed (use children_lighter member_le_sum_list in
      \<open>auto intro: le_less_trans [OF member_le_sum_list children_lighter]\<close>)

declare cognitive_complexity.simps [simp del]


text \<open>
  \<^verbatim>\<open>_max_nesting_depth\<close>: the largest depth reached below the node, where a conditional
  statement, loop, with, try, handler or match child lies one level deeper.
\<close>

function max_nesting_depth :: "ast \<Rightarrow> int \<Rightarrow> int" where
  "max_nesting_depth node current =
     foldl (\<lambda>max_depth child_depth. max max_depth child_depth) current
       (map (\<lambda>child.
          (case child of
             If t b e \<Rightarrow> max_nesting_depth child (current + 1)
           | For t i b e \<Rightarrow> max_nesting_depth child (current + 1)
           | While t b e \<Rightarrow> max_nesting_depth child (current + 1)
           | With i b \<Rightarrow> max_nesting_depth child (current + 1)
           | Try b h e f \<Rightarrow> max_nesting_depth child (current + 1)
           | ExceptHandler t b \<Rightarrow> max_nesting_depth child (current + 1)
           | Match s cases \<Rightarrow> max_nesting_depth child (current + 1)
           | _ \<Rightarrow> max_nesting_depth child current))
        (iter_child_nodes node))"
  by pat_completeness auto
termination
proof (relation "measure (\<lambda>(n, d). node_weight n)")
  show "wf (measure (\<lambda>(n, d). node_weight n))" by simp
qed (auto intro: le_less_trans [OF member_le_sum_list children_lighter])

declare max_nesting_depth.simps [simp del]

record ComplexityMetrics =
  cyclomatic :: int
  cognitive :: int
  nesting_depth :: int
  loc :: int

section \<open>Control flow\<close>

text \<open>
  \<^verbatim>\<open>ast.unparse\<close> belongs to the Python library, not to the analyzer; the functions that
  call \<^verbatim>\<open>_safe_unparse\<close> take it as the parameter \<open>unp\<close>.

  \<^verbatim>\<open>list(set(xs))\<close> lists every element of \<open>xs\<close> once, in the iteration order of a
  CPython set, which the language leaves open. \<open>list_set\<close> fixes one order; the results
  below use only that it keeps the elements and repeats none.
\<close>

definition list_set :: "'a list \<Rightarrow> 'a list" where
  "list_set xs = remdups xs"

lemma set_list_set: "set (list_set xs) = set xs"
  by (simp add: list_set_def)

lemma distinct_list_set: "distinct (list_set xs)"
  by (simp add: list_set_def)

lemma list_set_Nil: "list_set [] = []"
  by (simp add: list_set_def)

lemma list_set_eq_Nil: "list_set xs = [] \<longleftrightarrow> xs = []"
  using set_list_set [of xs] by (metis set_empty)

record ControlFlowInfo =
  branch_count :: int
  exception_types_raised :: "string list"
  exception_types_caught :: "string list"
  has_finally :: bool
  is_generator :: bool
  is_async_generator :: bool
  is_coroutine :: bool
  has_match_case :: bool
  has_for_else :: bool
  has_while_else :: bool

text \<open>The name recorded for \<^verbatim>\<open>raise exc\<close>.\<close>

definition raised_name :: "(ast \<Rightarrow> string) \<Rightarrow> ast \<Rightarrow> string" where
  "raised_name unp exc =
     (case exc of
        Call func args kws \<Rightarrow>
          (case func of Name f \<Rightarrow> f | Attribute v a \<Rightarrow> unp func | _ \<Rightarrow> unp exc)
      | Name i \<Rightarrow> i
      | _ \<Rightarrow> unp exc)"

text \<open>
  One pass of the loop of \<^verbatim>\<open>_analyze_control_flow\<close> over a node of the walk. The record
  holds the local variables; \<open>is_coroutine\<close> is set before the loop.
\<close>

fun cf_step :: "(ast \<Rightarrow> string) \<Rightarrow> ControlFlowInfo \<Rightarrow> ast \<Rightarrow> ControlFlowInfo" where
  "cf_step unp s (Raise exc cause) =
     (case exc of
        Some e \<Rightarrow> s\<lparr>exception_types_raised := exception_types_raised s @ [raised_name unp e]\<rparr>
      | None \<Rightarrow> s)"
| "cf_step unp s (ExceptHandler ty body) =
     s\<lparr>exception_types_caught := exception_types_caught s @
           [case ty of Some t \<Rightarrow> unp t | None \<Rightarrow> ''BaseException''],
        branch_count := branch_count s + 1\<rparr>"
| "cf_step unp s (Try body handlers orelse finalbody) =
     (if finalbody \<noteq> [] then s\<lparr>has_finally := True\<rparr> else s)"
| "cf_step unp s (If t b e) = s\<lparr>branch_count := branch_count s + 1\<rparr>"
| "cf_step unp s (IfExp t b e) = s\<lparr>branch_count := branch_count s + 1\<rparr>"
| "cf_step unp s (For t i b orelse) =
     s\<lparr>branch_count := branch_count s + 1,
        has_for_else := (if orelse \<noteq> [] then True else has_for_else s)\<rparr>"
| "cf_step unp s (While t b orelse) =
     s\<lparr>branch_count := branch_count s + 1,
        has_while_else := (if orelse \<noteq> [] then True else has_while_else s)\<rparr>"
| "cf_step unp s (Match subject cases) =
     s\<lparr>has_match_case := True, branch_count := branch_count s + int (length cases)\<rparr>"
| "cf_step unp s (Yield v) =
     s\<lparr>is_generator := True,
        is_async_generator := (if is_coroutine s then True else is_async_generator s)\<rparr>"
| "cf_step unp s (YieldFrom v) = s\<lparr>is_generator := True\<rparr>"
| "cf_step unp s _ = s"

fun is_AsyncFunctionDef :: "ast \<Rightarrow> bool" where
  "is_AsyncFunctionDef (AsyncFunctionDef name args body decos returns l e) = True"
| "is_AsyncFunctionDef _ = False"

definition analyze_control_flow :: "(ast \<Rightarrow> string) \<Rightarrow> ast \<Rightarrow> ControlFlowInfo" where
  "analyze_control_flow unp node =
     (let s = foldl (cf_step unp)
                \<lparr>branch_count = 0, exception_types_raised = [], exception_types_caught = [],
                 has_finally = False, is_generator = False, is_async_generator = False,
                 is_coroutine = is_AsyncFunctionDef node, has_match_case = False,
                 has_for_else = False, has_while_else = False\<rparr>
                (walk node)
      in s\<lparr>exception_types_raised := list_set (exception_types_raised s),
           exception_types_caught := list_set (exception_types_caught s)\<rparr>)"

section \<open>Data flow\<close>

record DataFlowInfo =
  calls_made :: "string list"
  globals_read :: "string list"
  globals_written :: "string list"
  nonlocals :: "string list"
  args_mutated :: "string list"
  instance_attrs_read :: "string list"
  instance_attrs_written :: "string list"
  is_pure :: bool

definition MUTATION_METHODS :: "string list" where
  "MUTATION_METHODS =
     [''append'', ''extend'', ''insert'', ''remove'', ''pop'', ''clear'', ''sort'', ''reverse'',
      ''update'', ''setdefault'', ''add'', ''discard'']"

text \<open>
  The tests \<^verbatim>\<open>isinstance(x, ast.Name)\<close>, \<^verbatim>\<open>isinstance(x, ast.Attribute)\<close> and
  \<^verbatim>\<open>isinstance(x, ast.Subscript)\<close> together with the fields read after them.
\<close>

fun name_id :: "ast \<Rightarrow> string option" where
  "name_id (Name i) = Some i"
| "name_id _ = None"

fun attribute_parts :: "ast \<Rightarrow> (ast \<times> string) option" where
  "attribute_parts (Attribute v a) = Some (v, a)"
| "attribute_parts _ = None"

fun subscript_value :: "ast \<Rightarrow> ast option" where
  "subscript_value (Subscript v sl) = Some v"
| "subscript_value _ = None"

text \<open>
  The local variables of \<^verbatim>\<open>_analyze_data_flow\<close>, under their names with \<open>l_\<close> in front.
  The Python sets are lists without repetition, filled with \<open>List.insert\<close>.
\<close>

record df_locals =
  l_calls :: "string list"
  l_globals_written :: "string list"
  l_nonlocals :: "string list"
  l_args_mutated :: "string list"
  l_instance_attrs_read :: "string list"
  l_instance_attrs_written :: "string list"
  l_has_side_effects :: bool
  l_declared_globals :: "string list"
  l_declared_nonlocals :: "string list"

text \<open>One target of an \<^verbatim>\<open>Assign\<close>, and the target of an \<^verbatim>\<open>AugAssign\<close>.\<close>

definition assign_target :: "string list \<Rightarrow> df_locals \<Rightarrow> ast \<Rightarrow> df_locals" where
  "assign_target param_names s target =
     (case attribute_parts target of
        Some (v, attr) \<Rightarrow>
          if name_id v = Some ''self''
          then s\<lparr>l_instance_attrs_written := List.insert attr (l_instance_attrs_written s),
                 l_has_side_effects := True\<rparr>
          else s
      | None \<Rightarrow>
          (case name_id target of
             Some i \<Rightarrow>
               if i \<in> set (l_declared_globals s)
               then s\<lparr>l_globals_written := l_globals_written s @ [i]\<rparr>
               else s
           | None \<Rightarrow>
               (case subscript_value target of
                  Some v \<Rightarrow>
                    (case name_id v of
                       Some i \<Rightarrow>
                         if i \<in> set param_names
                         then s\<lparr>l_args_mutated := List.insert i (l_args_mutated s),
                                l_has_side_effects := True\<rparr>
                         else s
                     | None \<Rightarrow> s)
                | None \<Rightarrow> s)))"

definition augassign_target :: "df_locals \<Rightarrow> ast \<Rightarrow> df_locals" where
  "augassign_target s target =
     (case attribute_parts target of
        Some (v, attr) \<Rightarrow>
          if name_id v = Some ''self''
          then s\<lparr>l_instance_attrs_written := List.insert attr (l_instance_attrs_written s),
                 l_has_side_effects := True\<rparr>
          else s
      | None \<Rightarrow>
          (case name_id target of
             Some i \<Rightarrow>
               if i \<in> set (l_declared_globals s)
               then s\<lparr>l_globals_written := l_globals_written s @ [i]\<rparr>
               else s
           | None \<Rightarrow> s))"

text \<open>What a \<^verbatim>\<open>Call\<close> records beyond its name, when its callee is an attribute.\<close>

definition call_on_attribute :: "string list \<Rightarrow> df_locals \<Rightarrow> ast \<Rightarrow> string \<Rightarrow> df_locals" where
  "call_on_attribute param_names s v attr =
     (let s1 = (case name_id v of
                  Some i \<Rightarrow>
                    if i \<in> set param_names \<and> attr \<in> set MUTATION_METHODS
                    then s\<lparr>l_args_mutated := List.insert i (l_args_mutated s),
                           l_has_side_effects := True\<rparr>
                    else s
                | None \<Rightarrow> s)
      in (case attribute_parts v of
            Some (vv, a) \<Rightarrow>
              if name_id vv = Some ''self''
              then s1\<lparr>l_instance_attrs_read := List.insert a (l_instance_attrs_read s1)\<rparr>
              else s1
          | None \<Rightarrow> s1))"

text \<open>One pass of the first loop of \<^verbatim>\<open>_analyze_data_flow\<close>.\<close>

fun df_step :: "(ast \<Rightarrow> string) \<Rightarrow> string list \<Rightarrow> df_locals \<Rightarrow> ast \<Rightarrow> df_locals" where
  "df_step unp param_names s (Global names) =
     s\<lparr>l_declared_globals := foldl (\<lambda>acc n. List.insert n acc) (l_declared_globals s) names,
        l_has_side_effects := True\<rparr>"
| "df_step unp param_names s (Nonlocal names) =
     s\<lparr>l_declared_nonlocals := foldl (\<lambda>acc n. List.insert n acc) (l_declared_nonlocals s) names,
        l_nonlocals := l_nonlocals s @ names,
        l_has_side_effects := True\<rparr>"
| "df_step unp param_names s (Call func args kws) =
     (let s1 = s\<lparr>l_calls := l_calls s @ [unp func]\<rparr>
      in (case attribute_parts func of
            Some (v, attr) \<Rightarrow> call_on_attribute param_names s1 v attr
          | None \<Rightarrow> s1))"
| "df_step unp param_names s (Attribute v attr) =
     (if name_id v = Some ''self''
      then s\<lparr>l_instance_attrs_read := List.insert attr (l_instance_attrs_read s)\<rparr>
      else s)"
| "df_step unp param_names s (Assign targets v l) =
     foldl (assign_target param_names) s targets"
| "df_step unp param_names s (AugAssign target v) = augassign_target s target"
| "df_step unp param_names s _ = s"

text \<open>
  The names of the parameters of an \<^verbatim>\<open>arg\<close> list. The lists of an \<^verbatim>\<open>arguments\<close> node hold
  \<^verbatim>\<open>arg\<close> nodes; the parser builds no other, and the model gives the empty name and no
  annotation to any other node found there.
\<close>

fun arg_name :: "ast \<Rightarrow> string" where
  "arg_name (Arg a ann) = a"
| "arg_name _ = []"

fun arg_annotation :: "ast \<Rightarrow> ast option" where
  "arg_annotation (Arg a ann) = ann"
| "arg_annotation _ = None"

fun function_args :: "ast \<Rightarrow> ast" where
  "function_args (FunctionDef name args body decos returns l e) = args"
| "function_args (AsyncFunctionDef name args body decos returns l e) = args"
| "function_args n = n"

text \<open>\<^verbatim>\<open>param_names\<close>, in the order in which the source collects them.\<close>

fun param_names_of :: "ast \<Rightarrow> string list" where
  "param_names_of (Arguments posonly args vararg kwonly kw_defaults kwarg defaults) =
     map arg_name args @ map arg_name (opt vararg) @ map arg_name (opt kwarg)
       @ map arg_name kwonly @ map arg_name posonly"
| "param_names_of _ = []"

definition df_walk :: "(ast \<Rightarrow> string) \<Rightarrow> ast \<Rightarrow> df_locals" where
  "df_walk unp node =
     foldl (df_step unp (param_names_of (function_args node)))
       \<lparr>l_calls = [], l_globals_written = [], l_nonlocals = [], l_args_mutated = [],
        l_instance_attrs_read = [], l_instance_attrs_written = [],
        l_has_side_effects = False, l_declared_globals = [], l_declared_nonlocals = []\<rparr>
       (walk node)"

text \<open>The second loop: the declared globals that are named and not written.\<close>

definition globals_read_of :: "df_locals \<Rightarrow> ast list \<Rightarrow> string list" where
  "globals_read_of s nodes =
     concat (map (\<lambda>child.
        (case name_id child of
           Some i \<Rightarrow>
             if i \<in> set (l_declared_globals s) \<and> i \<notin> set (l_globals_written s) then [i] else []
         | None \<Rightarrow> [])) nodes)"

definition analyze_data_flow :: "(ast \<Rightarrow> string) \<Rightarrow> ast \<Rightarrow> DataFlowInfo" where
  "analyze_data_flow unp node =
     (let s = df_walk unp node
      in \<lparr>calls_made = list_set (l_calls s),
          globals_read = list_set (globals_read_of s (walk node)),
          globals_written = list_set (l_globals_written s),
          nonlocals = list_set (l_nonlocals s),
          args_mutated = sort (l_args_mutated s),
          instance_attrs_read = sort (l_instance_attrs_read s),
          instance_attrs_written = sort (l_instance_attrs_written s),
          is_pure = (\<not> l_has_side_effects s \<and> l_calls s = [])\<rparr>)"

section \<open>Edge-case hints\<close>

record EdgeCaseHint =
  parameter :: "string option"
  category :: string
  description :: string

text \<open>
  \<^verbatim>\<open>str.lower\<close> on the ASCII letters, and the test \<^verbatim>\<open>sub in s\<close> on strings.
\<close>

definition char_lower :: "char \<Rightarrow> char" where
  "char_lower c =
     (if CHR ''A'' \<le> c \<and> c \<le> CHR ''Z'' then char_of (of_char c + (32 :: nat)) else c)"

definition lower :: "string \<Rightarrow> string" where
  "lower s = map char_lower s"

fun contains :: "string \<Rightarrow> string \<Rightarrow> bool" where
  "contains sub [] = (sub = [])"
| "contains sub (c # s) = (take (length sub) (c # s) = sub \<or> contains sub s)"

definition get_annotation :: "(ast \<Rightarrow> string) \<Rightarrow> ast option \<Rightarrow> string option" where
  "get_annotation unp node = (case node of None \<Rightarrow> None | Some n \<Rightarrow> Some (unp n))"

definition quoted :: "string \<Rightarrow> string" where
  "quoted name = [CHR 0x27] @ name @ [CHR 0x27]"

text \<open>The hints of one parameter: the body of the first loop of \<^verbatim>\<open>_infer_edge_cases\<close>.\<close>

definition param_hints :: "(ast \<Rightarrow> string) \<Rightarrow> ast \<Rightarrow> EdgeCaseHint list" where
  "param_hints unp arg =
     (let name = arg_name arg in
      if name = ''self'' \<or> name = ''cls'' then []
      else
        [\<lparr>parameter = Some name, category = ''none_input'',
          description = ''Pass None for '' @ quoted name\<rparr>,
         \<lparr>parameter = Some name, category = ''empty_input'',
          description = ''Pass empty value for '' @ quoted name
                          @ '' (empty string, empty list, etc.)''\<rparr>]
        @ (case get_annotation unp (arg_annotation arg) of
             None \<Rightarrow> []
           | Some ann \<Rightarrow>
               if ann = [] then []
               else
                 (let ann_lower = lower ann in
                  (if contains ''int'' ann_lower \<or> contains ''float'' ann_lower
                   then [\<lparr>parameter = Some name, category = ''boundary_value'',
                          description = ''Pass 0, -1, very large number for '' @ quoted name\<rparr>]
                   else [])
                  @ (if contains ''str'' ann_lower
                     then [\<lparr>parameter = Some name, category = ''boundary_value'',
                            description = ''Pass empty string, very long string, unicode for ''
                                            @ quoted name\<rparr>]
                     else [])
                  @ (if contains ''list'' ann_lower \<or> contains ''set'' ann_lower
                     then [\<lparr>parameter = Some name, category = ''boundary_value'',
                            description =
                              ''Pass empty collection, single element, very large collection for ''
                                @ quoted name\<rparr>]
                     else [])
                  @ (if contains ''bool'' ann_lower
                     then [\<lparr>parameter = Some name, category = ''boolean_combo'',
                            description = ''Test both True and False for '' @ quoted name\<rparr>]
                     else [])))
        @ [\<lparr>parameter = Some name, category = ''type_mismatch'',
            description = ''Pass wrong type for '' @ quoted name\<rparr>])"

definition raise_hint :: "string \<Rightarrow> EdgeCaseHint" where
  "raise_hint exc_type =
     \<lparr>parameter = None, category = ''exception_path'',
      description = ''Trigger '' @ exc_type @ '' raise path''\<rparr>"

definition catch_hint :: "string \<Rightarrow> EdgeCaseHint" where
  "catch_hint exc_type =
     \<lparr>parameter = None, category = ''exception_path'',
      description = ''Test '' @ exc_type @ '' exception handling path''\<rparr>"

text \<open>\<^verbatim>\<open>args.args + args.kwonlyargs + args.posonlyargs\<close>.\<close>

fun hinted_args :: "ast \<Rightarrow> ast list" where
  "hinted_args (Arguments posonly args vararg kwonly kw_defaults kwarg defaults) =
     args @ kwonly @ posonly"
| "hinted_args _ = []"

definition infer_edge_cases :: "(ast \<Rightarrow> string) \<Rightarrow> ast \<Rightarrow> ControlFlowInfo \<Rightarrow> EdgeCaseHint list" where
  "infer_edge_cases unp func_node control_flow =
     concat (map (param_hints unp) (hinted_args (function_args func_node)))
     @ map raise_hint (exception_types_raised control_flow)
     @ map catch_hint (exception_types_caught control_flow)"

section \<open>The function analyzer\<close>

record ParameterInfo =
  name :: string
  annotation :: "string option"
  default :: "string option"
  kind :: string

text \<open>
  \<open>FunctionInfo\<close> as the analyzer builds it, without the three fields that are made by
  text processing only and that nothing below reads: the source text, the parsed
  docstring and the inferred return types.
\<close>

record FunctionInfo =
  qualified_name :: string
  name :: string
  start_line :: int
  end_line :: int
  parameters :: "ParameterInfo list"
  return_annotation :: "string option"
  decorators :: "string list"
  complexity :: ComplexityMetrics
  control_flow :: ControlFlowInfo
  data_flow :: DataFlowInfo
  edge_cases :: "EdgeCaseHint list"
  is_method :: bool
  is_staticmethod :: bool
  is_classmethod :: bool
  is_property :: bool
  is_abstractmethod :: bool
  nested_functions :: "string list"

text \<open>
  An exception is the left summand of the result, with its message.
\<close>

type_synonym 'a raising = "string + 'a"

fun join :: "string \<Rightarrow> string list \<Rightarrow> string" where
  "join sep [] = []"
| "join sep [x] = x"
| "join sep (x # y # ys) = x @ sep @ join sep (y # ys)"

fun decorator_name :: "(ast \<Rightarrow> string) \<Rightarrow> ast \<Rightarrow> string" where
  "decorator_name unp (Name i) = i"
| "decorator_name unp (Attribute v a) = decorator_name unp v @ ''.'' @ a"
| "decorator_name unp (Call f args kws) =
     decorator_name unp f @ ''('' @ join '', '' (map unp args) @ '')''"
| "decorator_name unp n = unp n"

text \<open>
  The parameter list. The defaults of the positional parameters are found by index
  arithmetic on \<^verbatim>\<open>defaults\<close>; \<^verbatim>\<open>kw_defaults[i]\<close> raises \<^verbatim>\<open>IndexError\<close> when the list is
  shorter than \<^verbatim>\<open>kwonlyargs\<close>.
\<close>

definition posonly_params :: "(ast \<Rightarrow> string) \<Rightarrow> ast list \<Rightarrow> ast list \<Rightarrow> ParameterInfo list" where
  "posonly_params unp posonly defaults =
     map (\<lambda>(i, arg).
        (let default_idx = int i - (int (length posonly) - int (length defaults))
         in \<lparr>ParameterInfo.name = arg_name arg,
             annotation = get_annotation unp (arg_annotation arg),
             default = (if 0 \<le> default_idx \<and> default_idx < int (length defaults)
                        then Some (unp (defaults ! nat default_idx)) else None),
             kind = ''POSITIONAL_ONLY''\<rparr>))
       (enumerate 0 posonly)"

definition regular_params :: "(ast \<Rightarrow> string) \<Rightarrow> ast list \<Rightarrow> ast list \<Rightarrow> ParameterInfo list" where
  "regular_params unp args defaults =
     (let num_no_default = int (length args) - int (length defaults)
      in map (\<lambda>(i, arg).
           (let default_idx = int i - num_no_default
            in \<lparr>ParameterInfo.name = arg_name arg,
                annotation = get_annotation unp (arg_annotation arg),
                default = (if 0 \<le> default_idx
                           then Some (unp (defaults ! nat default_idx)) else None),
                kind = ''POSITIONAL_OR_KEYWORD''\<rparr>))
          (enumerate 0 args))"

definition star_param :: "(ast \<Rightarrow> string) \<Rightarrow> string \<Rightarrow> ast option \<Rightarrow> ParameterInfo list" where
  "star_param unp k a =
     (case a of
        None \<Rightarrow> []
      | Some arg \<Rightarrow>
          [\<lparr>ParameterInfo.name = arg_name arg,
            annotation = get_annotation unp (arg_annotation arg),
            default = None, kind = k\<rparr>])"

definition kwonly_params ::
  "(ast \<Rightarrow> string) \<Rightarrow> ast list \<Rightarrow> ast option list \<Rightarrow> ParameterInfo list raising" where
  "kwonly_params unp kwonly kw_defaults =
     (if length kw_defaults < length kwonly then Inl ''list index out of range''
      else Inr (map (\<lambda>(i, arg).
             \<lparr>ParameterInfo.name = arg_name arg,
              annotation = get_annotation unp (arg_annotation arg),
              default = (case kw_defaults ! i of None \<Rightarrow> None | Some d \<Rightarrow> Some (unp d)),
              kind = ''KEYWORD_ONLY''\<rparr>)
           (enumerate 0 kwonly)))"

fun extract_parameters :: "(ast \<Rightarrow> string) \<Rightarrow> ast \<Rightarrow> ParameterInfo list raising" where
  "extract_parameters unp (Arguments posonly args vararg kwonly kw_defaults kwarg defaults) =
     (case kwonly_params unp kwonly kw_defaults of
        Inl e \<Rightarrow> Inl e
      | Inr kw \<Rightarrow>
          Inr (posonly_params unp posonly defaults @ regular_params unp args defaults
               @ star_param unp ''VAR_POSITIONAL'' vararg @ kw
               @ star_param unp ''VAR_KEYWORD'' kwarg))"
| "extract_parameters unp n = Inl ''AttributeError''"

fun def_name :: "ast \<Rightarrow> string option" where
  "def_name (FunctionDef fname args body decos returns l e) = Some fname"
| "def_name (AsyncFunctionDef fname args body decos returns l e) = Some fname"
| "def_name _ = None"

text \<open>
  \<^verbatim>\<open>_analyze_function\<close> on the fields of a \<^verbatim>\<open>FunctionDef\<close> or \<^verbatim>\<open>AsyncFunctionDef\<close> node.
  \<open>class_name\<close> is \<open>None\<close> for a top-level function.
\<close>

definition analyze_def ::
  "(ast \<Rightarrow> string) \<Rightarrow> ast \<Rightarrow> string \<Rightarrow> ast \<Rightarrow> ast list \<Rightarrow> ast option \<Rightarrow> int \<Rightarrow> int option
     \<Rightarrow> string \<Rightarrow> string option \<Rightarrow> FunctionInfo raising" where
  "analyze_def unp node fname args decorator_list returns lineno end_lineno
       module_name class_name =
     (case extract_parameters unp args of
        Inl e \<Rightarrow> Inl e
      | Inr params \<Rightarrow>
         (let parts = [module_name]
                 @ (case class_name of None \<Rightarrow> [] | Some c \<Rightarrow> if c = [] then [] else [c])
                 @ [fname];
              decos = map (decorator_name unp) decorator_list;
              start_l = lineno;
              end_l = (case end_lineno of None \<Rightarrow> lineno | Some e \<Rightarrow> if e = 0 then lineno else e);
              cf = analyze_control_flow unp node
          in Inr \<lparr>qualified_name = join ''.'' parts,
                  FunctionInfo.name = fname,
                  start_line = start_l,
                  end_line = end_l,
                  parameters = params,
                  return_annotation = get_annotation unp returns,
                  decorators = decos,
                  complexity = \<lparr>cyclomatic = cyclomatic_complexity node,
                                cognitive = cognitive_complexity node 0,
                                nesting_depth = max_nesting_depth node 0,
                                loc = end_l - start_l + 1\<rparr>,
                  control_flow = cf,
                  data_flow = analyze_data_flow unp node,
                  edge_cases = infer_edge_cases unp node cf,
                  is_method = (class_name \<noteq> None),
                  is_staticmethod = list_ex (contains ''staticmethod'') decos,
                  is_classmethod = list_ex (contains ''classmethod'') decos,
                  is_property = list_ex (contains ''property'') decos,
                  is_abstractmethod = list_ex (contains ''abstractmethod'') decos,
                  nested_functions = concat (map (\<lambda>c. opt (def_name c)) (iter_child_nodes node))\<rparr>))"

fun analyze_function ::
  "(ast \<Rightarrow> string) \<Rightarrow> ast \<Rightarrow> string \<Rightarrow> string option \<Rightarrow> FunctionInfo raising" where
  "analyze_function unp (FunctionDef fname args body decos returns l e) module_name class_name =
     analyze_def unp (FunctionDef fname args body decos returns l e) fname args decos returns l e
       module_name class_name"
| "analyze_function unp (AsyncFunctionDef fname args body decos returns l e) module_name class_name =
     analyze_def unp (AsyncFunctionDef fname args body decos returns l e) fname args decos returns
       l e module_name class_name"
| "analyze_function unp n module_name class_name = Inl ''AttributeError''"

section \<open>Trees as the parser builds them\<close>

text \<open>
  The analyzer receives the trees of \<^verbatim>\<open>ast.parse\<close>. Of the grammar's guarantees these are
  used below: a boolean chain has at least two operands; a definition carries its line
  span, which starts at line 1 or later and does not end before it starts; the \<^verbatim>\<open>args\<close>
  of a function is an \<^verbatim>\<open>arguments\<close> node, whose parameter lists hold \<^verbatim>\<open>arg\<close> nodes,
  whose \<^verbatim>\<open>kw_defaults\<close> is as long as \<^verbatim>\<open>kwonlyargs\<close> and whose \<^verbatim>\<open>defaults\<close> is no
  longer than the positional parameters.
\<close>

fun boolop_ok :: "ast \<Rightarrow> bool" where
  "boolop_ok (BoolOp vals) = (2 \<le> length vals)"
| "boolop_ok _ = True"

fun span_ok :: "ast \<Rightarrow> bool" where
  "span_ok (FunctionDef fname args body decos returns l e) =
     (case e of None \<Rightarrow> False | Some e' \<Rightarrow> 1 \<le> l \<and> l \<le> e')"
| "span_ok (AsyncFunctionDef fname args body decos returns l e) =
     (case e of None \<Rightarrow> False | Some e' \<Rightarrow> 1 \<le> l \<and> l \<le> e')"
| "span_ok (ClassDef cname bases kws body decos l e) =
     (case e of None \<Rightarrow> False | Some e' \<Rightarrow> 1 \<le> l \<and> l \<le> e')"
| "span_ok _ = True"

fun is_Arg :: "ast \<Rightarrow> bool" where
  "is_Arg (Arg a ann) = True"
| "is_Arg _ = False"

fun is_Arguments :: "ast \<Rightarrow> bool" where
  "is_Arguments (Arguments posonly args vararg kwonly kw_defaults kwarg defaults) = True"
| "is_Arguments _ = False"

fun arguments_ok :: "ast \<Rightarrow> bool" where
  "arguments_ok (Arguments posonly args vararg kwonly kw_defaults kwarg defaults) =
     (length kw_defaults = length kwonly \<and> length defaults \<le> length posonly + length args
      \<and> list_all is_Arg (posonly @ args @ opt vararg @ kwonly @ opt kwarg))"
| "arguments_ok (FunctionDef fname args body decos returns l e) = is_Arguments args"
| "arguments_ok (AsyncFunctionDef fname args body decos returns l e) = is_Arguments args"
| "arguments_ok _ = True"

definition parser_tree :: "ast \<Rightarrow> bool" where
  "parser_tree n = list_all (\<lambda>c. boolop_ok c \<and> span_ok c \<and> arguments_ok c) (walk n)"

section \<open>The decision points of a function, counted by kind\<close>

text \<open>
  The count that the specification describes: the conditionals, the loops, the exception
  handlers, the with-blocks and the assertions of the tree, one each; for every boolean
  chain its operands less one; for every match statement its cases. The nodes are taken
  in depth-first order, each kind on its own.
\<close>

fun conditional :: "ast \<Rightarrow> bool" where
  "conditional (If t b e) = True"
| "conditional (IfExp t b e) = True"
| "conditional _ = False"

fun loop :: "ast \<Rightarrow> bool" where
  "loop (For t i b e) = True"
| "loop (While t b e) = True"
| "loop _ = False"

fun exception_handler :: "ast \<Rightarrow> bool" where
  "exception_handler (ExceptHandler t b) = True"
| "exception_handler _ = False"

fun with_block :: "ast \<Rightarrow> bool" where
  "with_block (With i b) = True"
| "with_block _ = False"

fun assertion :: "ast \<Rightarrow> bool" where
  "assertion (Assert t m) = True"
| "assertion _ = False"

definition decision_points :: "ast \<Rightarrow> int" where
  "decision_points f =
     (let ns = subnodes f in
      int (length (filter conditional ns)) + int (length (filter loop ns))
      + int (length (filter exception_handler ns)) + int (length (filter with_block ns))
      + int (length (filter assertion ns))
      + (\<Sum>vals \<leftarrow> [vals. BoolOp vals \<leftarrow> ns]. int (length vals) - 1)
      + (\<Sum>cases \<leftarrow> [cases. Match subject cases \<leftarrow> ns]. int (length cases)))"

section \<open>Example programs\<close>

text \<open>
  \<^verbatim>\<open>def f(x): return x if x > 0 else -x\<close>
\<close>

definition scenario_A :: ast where
  "scenario_A =
     FunctionDef ''f'' (Arguments [] [Arg ''x'' None] None [] [] None [])
       [Return (Some (IfExp (Other ''Compare'' [Name ''x'', Constant (CInt 0)])
                            (Name ''x'')
                            (Other ''UnaryOp'' [Name ''x''])))]
       [] None 1 (Some 1)"

section \<open>Node tests used in the statements\<close>

fun is_Yield :: "ast \<Rightarrow> bool" where
  "is_Yield (Yield v) = True"
| "is_Yield _ = False"

fun is_YieldFrom :: "ast \<Rightarrow> bool" where
  "is_YieldFrom (YieldFrom v) = True"
| "is_YieldFrom _ = False"

fun is_Call :: "ast \<Rightarrow> bool" where
  "is_Call (Call f args kws) = True"
| "is_Call _ = False"

text \<open>
  \<^verbatim>\<open>async def g(): yield 1\<close> and \<^verbatim>\<open>async def h(): return 1\<close>
\<close>

definition scenario_C_yield :: ast where
  "scenario_C_yield =
     AsyncFunctionDef ''g'' (Arguments [] [] None [] [] None [])
       [Expr (Yield (Some (Constant (CInt 1))))] [] None 1 (Some 1)"

definition scenario_C_plain :: ast where
  "scenario_C_plain =
     AsyncFunctionDef ''h'' (Arguments [] [] None [] [] None [])
       [Return (Some (Constant (CInt 1)))] [] None 1 (Some 1)"

text \<open>
  \<^verbatim>\<open>def f(): return 1\<close> and \<^verbatim>\<open>def k(): return g()\<close>
\<close>

definition scenario_D :: ast where
  "scenario_D =
     FunctionDef ''f'' (Arguments [] [] None [] [] None [])
       [Return (Some (Constant (CInt 1)))] [] None 1 (Some 1)"

definition scenario_D_call :: ast where
  "scenario_D_call =
     FunctionDef ''k'' (Arguments [] [] None [] [] None [])
       [Return (Some (Call (Name ''g'') [] []))] [] None 1 (Some 1)"

text \<open>
  In the examples that need the text of an expression, \<open>unparse_names\<close> stands for
  \<^verbatim>\<open>ast.unparse\<close>: it agrees with it on names, the only expressions unparsed there.
\<close>

definition unparse_names :: "ast \<Rightarrow> string" where
  "unparse_names n = (case name_id n of Some i \<Rightarrow> i | None \<Rightarrow> ''<unknown>'')"

text \<open>
  \<^verbatim>\<open>
  def g(x, *rest):
      try:
          pass
      except ValueError:
          raise ValueError()
  \<close>
\<close>

definition scenario_hints :: ast where
  "scenario_hints =
     FunctionDef ''g'' (Arguments [] [Arg ''x'' None] (Some (Arg ''rest'' None)) [] [] None [])
       [Try [Other ''Pass'' []]
            [ExceptHandler (Some (Name ''ValueError''))
               [Raise (Some (Call (Name ''ValueError'') [] [])) None]]
            [] []]
       [] None 1 (Some 5)"

section \<open>Side effects that the purity flag answers to\<close>

text \<open>
  The statements and expressions of a function body that make the analyzer call the
  function impure, described by their syntax: a \<^verbatim>\<open>global\<close> or \<^verbatim>\<open>nonlocal\<close> declaration
  (no name of an enclosing scope can be written without one); an assignment or augmented
  assignment whose target is \<^verbatim>\<open>self.attr\<close>; an assignment whose target is \<^verbatim>\<open>p[...]\<close> for
  a parameter \<^verbatim>\<open>p\<close>, or a call \<^verbatim>\<open>p.m(...)\<close> of a mutating method \<^verbatim>\<open>m\<close> on a parameter.
\<close>

fun scope_declaration :: "ast \<Rightarrow> bool" where
  "scope_declaration (Global names) = True"
| "scope_declaration (Nonlocal names) = True"
| "scope_declaration _ = False"

fun self_target :: "ast \<Rightarrow> bool" where
  "self_target (Attribute (Name i) a) = (i = ''self'')"
| "self_target _ = False"

fun attribute_write :: "ast \<Rightarrow> bool" where
  "attribute_write (Assign targets v l) = list_ex self_target targets"
| "attribute_write (AugAssign t v) = self_target t"
| "attribute_write _ = False"

fun item_of_parameter :: "string list \<Rightarrow> ast \<Rightarrow> bool" where
  "item_of_parameter ps (Subscript (Name p) sl) = (p \<in> set ps)"
| "item_of_parameter ps _ = False"

fun mutating_call :: "string list \<Rightarrow> ast \<Rightarrow> bool" where
  "mutating_call ps (Attribute (Name p) m) = (p \<in> set ps \<and> m \<in> set MUTATION_METHODS)"
| "mutating_call ps _ = False"

fun parameter_mutation :: "string list \<Rightarrow> ast \<Rightarrow> bool" where
  "parameter_mutation ps (Assign targets v l) = list_ex (item_of_parameter ps) targets"
| "parameter_mutation ps (Call f args kws) = mutating_call ps f"
| "parameter_mutation ps _ = False"

text \<open>
  \<^verbatim>\<open>
  def m(self, xs):
      global G
      self.a = 1
      xs[0] = 2
      g()
  \<close>
\<close>

definition scenario_effects :: ast where
  "scenario_effects =
     FunctionDef ''m'' (Arguments [] [Arg ''self'' None, Arg ''xs'' None] None [] [] None [])
       [Global [''G''],
        Assign [Attribute (Name ''self'') ''a''] (Constant (CInt 1)) 3,
        Assign [Subscript (Name ''xs'') (Constant (CInt 0))] (Constant (CInt 2)) 4,
        Expr (Call (Name ''g'') [] [])]
       [] None 1 (Some 5)"

text \<open>
  \<^verbatim>\<open>
  def m(self):
      self.a, self.b = 1, 2
  \<close>
\<close>

definition scenario_tuple_write :: ast where
  "scenario_tuple_write =
     FunctionDef ''m'' (Arguments [] [Arg ''self'' None] None [] [] None [])
       [Assign [Tuple [Attribute (Name ''self'') ''a'', Attribute (Name ''self'') ''b'']]
               (Tuple [Constant (CInt 1), Constant (CInt 2)]) 2]
       [] None 1 (Some 2)"

section \<open>Modules and classes of the report\<close>

record ImportInfo =
  name :: string
  "alias" :: "string option"
  category :: string
  is_conditional :: bool
  line :: int

record ModuleVariable =
  name :: string
  type_annotation :: "string option"
  value_repr :: "string option"
  is_constant :: bool
  line :: int

text \<open>
  An entry of \<^verbatim>\<open>instance_attributes\<close> or \<^verbatim>\<open>class_attributes\<close>: the dictionary with the keys
  \<^verbatim>\<open>name\<close>, \<^verbatim>\<open>type\<close> and \<^verbatim>\<open>value\<close>.
\<close>

record AttributeEntry =
  attr_name :: string
  attr_type :: "string option"
  attr_value :: "string option"

text \<open>
  \<open>ClassInfo\<close> without its source text. \<open>methods\<close> is the dictionary from group name to
  functions, in insertion order: \<^verbatim>\<open>public\<close>, \<^verbatim>\<open>private\<close>, \<^verbatim>\<open>dunder\<close>, \<^verbatim>\<open>static\<close>,
  \<^verbatim>\<open>class_\<close>, \<^verbatim>\<open>property\<close>.
\<close>

record ClassInfo =
  qualified_name :: string
  name :: string
  start_line :: int
  end_line :: int
  base_classes :: "string list"
  docstring :: "string option"
  init_parameters :: "ParameterInfo list"
  instance_attributes :: "AttributeEntry list"
  class_attributes :: "AttributeEntry list"
  methods :: "(string \<times> FunctionInfo list) list"
  abstract_methods :: "string list"
  decorators :: "string list"
  is_dataclass :: bool
  is_pydantic_model :: bool

record ModuleInfo =
  path :: string
  import_name :: string
  docstring :: "string option"
  "imports" :: "ImportInfo list"
  module_variables :: "ModuleVariable list"
  "functions" :: "FunctionInfo list"
  classes :: "ClassInfo list"
  all_exports :: "string list option"
  has_main_block :: bool
  errors :: "string list"

record TestGenerationHints =
  suggested_test_order :: "string list"
  shared_fixtures_needed :: "string list"
  mocking_targets :: "string list"
  high_priority_targets :: "(string \<times> string) list"

section \<open>Strings and paths\<close>

definition startswith :: "string \<Rightarrow> string \<Rightarrow> bool" where
  "startswith s p = (take (length p) s = p)"

definition endswith :: "string \<Rightarrow> string \<Rightarrow> bool" where
  "endswith s p = (length p \<le> length s \<and> drop (length s - length p) s = p)"

text \<open>\<^verbatim>\<open>s.split(c)\<close> for a one-character separator.\<close>

fun split_on :: "char \<Rightarrow> string \<Rightarrow> string list" where
  "split_on c [] = [[]]"
| "split_on c (x # xs) =
     (if x = c then [] # split_on c xs
      else (case split_on c xs of [] \<Rightarrow> [[x]] | p # ps \<Rightarrow> (x # p) # ps))"

text \<open>
  \<^verbatim>\<open>Path(s).stem\<close> for a POSIX path given as text: the last component that is neither
  empty nor a single dot, cut at its last dot unless that dot is its first or its last
  character.
\<close>

definition path_name :: "string \<Rightarrow> string" where
  "path_name s =
     (case rev (filter (\<lambda>p. p \<noteq> [] \<and> p \<noteq> ''.'') (split_on CHR ''/'' s)) of
        [] \<Rightarrow> []
      | p # ps \<Rightarrow> p)"

text \<open>\<^verbatim>\<open>name.rfind('.')\<close>, \<open>None\<close> for \<open>-1\<close>.\<close>

definition rfind_dot :: "string \<Rightarrow> nat option" where
  "rfind_dot s =
     (case filter (\<lambda>i. s ! i = CHR ''.'') (rev [0 ..< length s]) of
        [] \<Rightarrow> None
      | i # is \<Rightarrow> Some i)"

definition name_stem :: "string \<Rightarrow> string" where
  "name_stem n =
     (case rfind_dot n of
        None \<Rightarrow> n
      | Some i \<Rightarrow> if 0 < i \<and> i < length n - 1 then take i n else n)"

definition path_stem :: "string \<Rightarrow> string" where
  "path_stem s = name_stem (path_name s)"

text \<open>\<^verbatim>\<open>str(i)\<close> for an integer.\<close>

fun digits_of :: "nat \<Rightarrow> string" where
  "digits_of n =
     (if n < 10 then [''0123456789'' ! n]
      else digits_of (n div 10) @ [''0123456789'' ! (n mod 10)])"

declare digits_of.simps [simp del]

definition str_int :: "int \<Rightarrow> string" where
  "str_int i = (if i < 0 then ''-'' @ digits_of (nat (- i)) else digits_of (nat i))"

section \<open>Test-generation hints\<close>

text \<open>
  The local variables of \<^verbatim>\<open>_generate_test_hints\<close>, each as a function of the arguments.
\<close>

definition tested_modules :: "string list \<Rightarrow> string list" where
  "tested_modules test_files =
     concat (map (\<lambda>tf.
        (let base = path_stem tf
         in if startswith base ''test_'' then [drop 5 base]
            else if endswith base ''_test'' then [take (length base - 5) base]
            else [])) test_files)"

definition class_methods :: "ClassInfo \<Rightarrow> FunctionInfo list" where
  "class_methods cls = concat (map snd (methods cls))"

definition all_funcs :: "ModuleInfo list \<Rightarrow> string list \<Rightarrow> (string \<times> int \<times> bool) list" where
  "all_funcs modules test_files =
     concat (map (\<lambda>m.
        (let mod_stem = path_stem (path m);
             mod_has_test = (mod_stem \<in> set (tested_modules test_files))
         in map (\<lambda>func. (FunctionInfo.qualified_name func,
                          cyclomatic (complexity func), mod_has_test)) (functions m)
            @ concat (map (\<lambda>cls.
                map (\<lambda>func. (FunctionInfo.qualified_name func,
                               cyclomatic (complexity func), False)) (class_methods cls))
              (classes m)))) modules)"

definition high_priority :: "ModuleInfo list \<Rightarrow> string list \<Rightarrow> (string \<times> int \<times> bool) list" where
  "high_priority modules test_files =
     take 20 (sort_key (\<lambda>(n, cc, ht). - cc)
                (filter (\<lambda>(n, cc, ht). \<not> ht) (all_funcs modules test_files)))"

definition mocks_of_function_call :: "string \<Rightarrow> bool" where
  "mocks_of_function_call call =
     (list_ex (startswith call)
        [''httpx.'', ''requests.'', ''aiohttp.'', ''urllib.'', ''boto3.'', ''redis.'', ''smtp'']
      \<or> contains ''datetime.now'' call \<or> contains ''datetime.utcnow'' call
      \<or> contains ''time.time'' call
      \<or> list_ex (\<lambda>db_kw. contains db_kw (lower call))
           [''session'', ''execute'', ''query'', ''commit'', ''scalar''])"

definition mocks_of_method_call :: "string \<Rightarrow> bool" where
  "mocks_of_method_call call =
     list_ex (startswith call) [''httpx.'', ''requests.'', ''aiohttp.'', ''boto3.'']"

definition mocking_targets_of :: "ModuleInfo list \<Rightarrow> string list" where
  "mocking_targets_of modules =
     concat (map (\<lambda>m.
        concat (map (\<lambda>func. filter mocks_of_function_call (calls_made (data_flow func)))
                 (functions m))
        @ concat (map (\<lambda>cls.
            concat (map (\<lambda>func. filter mocks_of_method_call (calls_made (data_flow func)))
                     (class_methods cls)))
          (classes m))) modules)"

definition fixtures_of :: "ModuleInfo list \<Rightarrow> string list" where
  "fixtures_of modules =
     concat (map (\<lambda>m.
        concat (map (\<lambda>imp.
          (let n = lower (ImportInfo.name imp)
           in (if contains ''database'' n \<or> contains ''db'' n then [''database_session''] else [])
              @ (if contains ''config'' n \<or> contains ''settings'' n then [''test_settings''] else [])
              @ (if contains ''client'' n \<or> contains ''httpx'' n then [''async_http_client'']
                 else []))) (imports m))
        @ concat (map (\<lambda>func. if is_coroutine (control_flow func) then [''event_loop''] else [])
                   (functions m))) modules)"

definition generate_test_hints :: "ModuleInfo list \<Rightarrow> string list \<Rightarrow> TestGenerationHints" where
  "generate_test_hints modules test_files =
     \<lparr>suggested_test_order = map fst (all_funcs modules test_files),
      shared_fixtures_needed = sort (remdups (fixtures_of modules)),
      mocking_targets = sort (remdups (mocking_targets_of modules)),
      high_priority_targets =
        map (\<lambda>(n, cc, ht). (n, ''cyclomatic_complexity='' @ str_int cc @ '', no existing tests''))
          (high_priority modules test_files)\<rparr>"

text \<open>
  Example reports. \<open>example_function qn cc\<close> is the record of a function without
  parameters, calls or exceptions, with the given qualified name and cyclomatic complexity.
\<close>

definition example_function :: "string \<Rightarrow> string \<Rightarrow> int \<Rightarrow> bool \<Rightarrow> FunctionInfo" where
  "example_function qn n cc meth =
     \<lparr>FunctionInfo.qualified_name = qn, FunctionInfo.name = n, FunctionInfo.start_line = 1,
      FunctionInfo.end_line = 1, parameters = [], return_annotation = None,
      FunctionInfo.decorators = [],
      complexity = \<lparr>cyclomatic = cc, cognitive = 0, nesting_depth = 0, loc = 1\<rparr>,
      control_flow = \<lparr>branch_count = 0, exception_types_raised = [], exception_types_caught = [],
         has_finally = False, is_generator = False, is_async_generator = False,
         is_coroutine = False, has_match_case = False, has_for_else = False,
         has_while_else = False\<rparr>,
      data_flow = \<lparr>calls_made = [], globals_read = [], globals_written = [], nonlocals = [],
         args_mutated = [], instance_attrs_read = [], instance_attrs_written = [],
         is_pure = True\<rparr>,
      edge_cases = [], is_method = meth, is_staticmethod = False, is_classmethod = False,
      is_property = False, is_abstractmethod = False, nested_functions = []\<rparr>"

text \<open>
  The module \<^verbatim>\<open>foo.py\<close> with the class \<^verbatim>\<open>C\<close> and its public method \<^verbatim>\<open>m\<close> of
  complexity 3, in a repository that has the test file \<^verbatim>\<open>tests/test_foo.py\<close>.
\<close>

definition example_class :: ClassInfo where
  "example_class =
     \<lparr>qualified_name = ''foo.C'', ClassInfo.name = ''C'', start_line = 1, end_line = 2,
      base_classes = [], ClassInfo.docstring = None, init_parameters = [], instance_attributes = [],
      class_attributes = [],
      methods = [(''public'', [example_function ''foo.C.m'' ''m'' 3 True]), (''private'', []),
                 (''dunder'', []), (''static'', []), (''class_'', []), (''property'', [])],
      abstract_methods = [], decorators = [], is_dataclass = False, is_pydantic_model = False\<rparr>"

definition example_module :: ModuleInfo where
  "example_module =
     \<lparr>path = ''foo.py'', import_name = ''foo'', docstring = None, imports = [],
      module_variables = [], functions = [], classes = [example_class], all_exports = None,
      has_main_block = False, errors = []\<rparr>"

text \<open>
  The module \<^verbatim>\<open>bar.py\<close> with two top-level functions of complexity 2 and 10, in a
  repository without test files.
\<close>

definition scenario_E :: ModuleInfo where
  "scenario_E =
     \<lparr>path = ''bar.py'', import_name = ''bar'', docstring = None, imports = [],
      module_variables = [],
      functions = [example_function ''bar.small'' ''small'' 2 False,
                   example_function ''bar.big'' ''big'' 10 False],
      classes = [], all_exports = None, has_main_block = False, errors = []\<rparr>"

section \<open>Import classification\<close>

text \<open>
  A path is the list of its components below the filesystem root, so that the root is
  \<open>[]\<close> and is its own parent. The filesystem is what the classifier asks of it:
  \<^verbatim>\<open>is_file\<close>, \<^verbatim>\<open>is_dir\<close>, \<^verbatim>\<open>exists\<close>, and \<^verbatim>\<open>iterdir\<close> as the names of the entries of a
  directory.
\<close>

type_synonym fpath = "string list"

record filesystem =
  fs_is_file :: "fpath \<Rightarrow> bool"
  fs_is_dir :: "fpath \<Rightarrow> bool"
  fs_exists :: "fpath \<Rightarrow> bool"
  fs_iterdir :: "fpath \<Rightarrow> string list"

definition parent :: "fpath \<Rightarrow> fpath" where
  "parent p = butlast p"

text \<open>\<^verbatim>\<open>f.suffix\<close> of a file name; \<^verbatim>\<open>f.stem\<close> is \<open>name_stem\<close>.\<close>

definition name_suffix :: "string \<Rightarrow> string" where
  "name_suffix n =
     (case rfind_dot n of
        None \<Rightarrow> []
      | Some i \<Rightarrow> if 0 < i \<and> i < length n - 1 then drop i n else [])"

definition local_exclude :: "string list" where
  "local_exclude =
     [''node_modules'', ''.venv'', ''venv'', ''__pycache__'', ''.git'', ''.tox'', ''.mypy_cache'',
      ''env'', ''dist'', ''build'']"

text \<open>
  The scan of \<^verbatim>\<open>_get_local_packages\<close>: the stems of the top_seg-level \<^verbatim>\<open>.py\<close> files, the
  directories with an \<^verbatim>\<open>__init__.py\<close>, and one level below, the subdirectories with one.
\<close>

definition scan_local_packages :: "filesystem \<Rightarrow> fpath \<Rightarrow> string list" where
  "scan_local_packages fs repo_root =
     concat (map (\<lambda>f.
        if name_suffix f = ''.py'' \<and> fs_is_file fs (repo_root @ [f]) then [name_stem f]
        else if fs_is_dir fs (repo_root @ [f]) \<and> f \<notin> set local_exclude
        then (if fs_exists fs (repo_root @ [f, ''__init__.py'']) then [f] else [])
             @ concat (map (\<lambda>sub.
                 if fs_is_dir fs (repo_root @ [f, sub]) \<and> sub \<notin> set local_exclude
                    \<and> fs_exists fs (repo_root @ [f, sub, ''__init__.py''])
                 then [sub] else [])
               (fs_iterdir fs (repo_root @ [f])))
        else [])
       (fs_iterdir fs repo_root))"

text \<open>
  \<^verbatim>\<open>_local_package_cache\<close> is a global dictionary; the functions that use it take it and
  return it.
\<close>

type_synonym package_cache = "fpath \<rightharpoonup> string list"

definition get_local_packages ::
  "filesystem \<Rightarrow> package_cache \<Rightarrow> fpath \<Rightarrow> string list \<times> package_cache" where
  "get_local_packages fs cache repo_root =
     (case cache repo_root of
        Some packages \<Rightarrow> (packages, cache)
      | None \<Rightarrow>
          (let packages = scan_local_packages fs repo_root
           in (packages, cache(repo_root \<mapsto> packages))))"

text \<open>The loop of \<^verbatim>\<open>_classify_import\<close> that walks up from the module to the repository root.\<close>

function walk_up :: "filesystem \<Rightarrow> string \<Rightarrow> fpath \<Rightarrow> fpath \<Rightarrow> string" where
  "walk_up fs top_seg repo_root current =
     (if current \<noteq> repo_root \<and> current \<noteq> parent current
      then (if fs_is_dir fs (current @ [top_seg]) \<or> fs_is_file fs (current @ [top_seg @ ''.py''])
            then ''local''
            else walk_up fs top_seg repo_root (parent current))
      else ''third_party'')"
  by pat_completeness auto
termination
proof (relation "measure (\<lambda>(fs, top_seg, repo_root, current). length current)")
  show "wf (measure (\<lambda>(fs, top_seg, repo_root, current). length current))" by simp
next
  fix fs :: filesystem and top_seg :: string and repo_root current :: fpath
  assume "current \<noteq> repo_root \<and> current \<noteq> parent current"
  then have "current \<noteq> []" by (auto simp: parent_def)
  then show "((fs, top_seg, repo_root, parent current), fs, top_seg, repo_root, current)
      \<in> measure (\<lambda>(fs, top_seg, repo_root, current). length current)"
    by (simp add: parent_def)
qed

declare walk_up.simps [simp del]

text \<open>
  \<^verbatim>\<open>_classify_import\<close>. \<open>stdlib\<close> is the set \<^verbatim>\<open>sys.stdlib_module_names\<close> of the running
  interpreter. The name is that of an import statement, so its first segment is an
  identifier: one non-empty path component.
\<close>

definition classify_import ::
  "string set \<Rightarrow> filesystem \<Rightarrow> package_cache \<Rightarrow> string \<Rightarrow> fpath \<Rightarrow> fpath
     \<Rightarrow> string \<times> package_cache" where
  "classify_import stdlib fs cache iname repo_root module_path =
     (let top_seg = hd (split_on CHR ''.'' iname)
      in if top_seg \<in> stdlib then (''stdlib'', cache)
         else
           (case get_local_packages fs cache repo_root of
              (packages, cache') \<Rightarrow>
                if top_seg \<in> set packages then (''local'', cache')
                else if fs_is_dir fs (parent module_path @ [top_seg])
                        \<or> fs_is_file fs (parent module_path @ [top_seg @ ''.py''])
                then (''local'', cache')
                else (walk_up fs top_seg repo_root (parent module_path), cache')))"

text \<open>
  An example repository \<^verbatim>\<open>/repo\<close> with \<^verbatim>\<open>main.py\<close>, \<^verbatim>\<open>mypkg/__init__.py\<close> and
  \<^verbatim>\<open>mypkg/sub.py\<close>.
\<close>

definition example_fs :: filesystem where
  "example_fs =
     \<lparr>fs_is_file = (\<lambda>p. p \<in> set [[''repo'', ''main.py''], [''repo'', ''mypkg'', ''__init__.py''],
                                    [''repo'', ''mypkg'', ''sub.py'']]),
      fs_is_dir = (\<lambda>p. p \<in> set [[], [''repo''], [''repo'', ''mypkg'']]),
      fs_exists = (\<lambda>p. p \<in> set [[], [''repo''], [''repo'', ''mypkg''], [''repo'', ''main.py''],
                                   [''repo'', ''mypkg'', ''__init__.py''],
                                   [''repo'', ''mypkg'', ''sub.py'']]),
      fs_iterdir = (\<lambda>p. if p = [''repo''] then [''main.py'', ''mypkg'']
                         else if p = [''repo'', ''mypkg''] then [''__init__.py'', ''sub.py'']
                         else if p = [] then [''repo''] else [])\<rparr>"

text \<open>
  The directories that the upward probe looks into: the directory of the importing module,
  then every directory from there upwards that is neither the repository root nor the
  filesystem root.
\<close>

function dirs_below :: "fpath \<Rightarrow> fpath \<Rightarrow> fpath list" where
  "dirs_below repo_root current =
     (if current \<noteq> repo_root \<and> current \<noteq> [] then current # dirs_below repo_root (butlast current)
      else [])"
  by pat_completeness auto
termination
  by (relation "measure (\<lambda>(repo_root, current). length current)") auto

declare dirs_below.simps [simp del]

definition probed_dirs :: "fpath \<Rightarrow> fpath \<Rightarrow> fpath list" where
  "probed_dirs repo_root module_path =
     butlast module_path # dirs_below repo_root (butlast module_path)"

definition probe_finds :: "filesystem \<Rightarrow> string \<Rightarrow> fpath \<Rightarrow> fpath \<Rightarrow> bool" where
  "probe_finds fs top_seg repo_root module_path =
     list_ex (\<lambda>d. fs_is_dir fs (d @ [top_seg]) \<or> fs_is_file fs (d @ [top_seg @ ''.py'']))
       (probed_dirs repo_root module_path)"

section \<open>The class analyzer\<close>











section \<open>The module analyzer\<close>

text \<open>
  What the analyzer takes from its host: reading a file (an exception is the left summand),
  \<^verbatim>\<open>ast.parse\<close>, \<^verbatim>\<open>ast.unparse\<close>, the filesystem, and the standard-library names.
  \<^verbatim>\<open>ast.parse\<close> returns a \<^verbatim>\<open>Module\<close> node, raises \<^verbatim>\<open>SyntaxError\<close>, or raises something else
  (\<^verbatim>\<open>ValueError\<close> for a null byte before Python 3.12, \<^verbatim>\<open>RecursionError\<close> or
  \<^verbatim>\<open>MemoryError\<close> for deep nesting).
\<close>

datatype parse_result = Parsed ast | Syntax_Error string | Parse_Raised string

record host =
  read_text :: "fpath \<Rightarrow> string raising"
  parse :: "string \<Rightarrow> parse_result"
  unparse :: "ast \<Rightarrow> string"
  files :: filesystem
  stdlib_module_names :: "string set"




























section \<open>Analysis of all files\<close>














text \<open>
  An example host for a repository \<^verbatim>\<open>/repo\<close> with the six files \<^verbatim>\<open>a.py\<close> to \<^verbatim>\<open>f.py\<close>. A
  file reads as the empty text, which parses to the empty module; in \<open>host_with_nul\<close> the
  file \<^verbatim>\<open>a.py\<close> holds a null byte, for which \<^verbatim>\<open>ast.parse\<close> raises \<^verbatim>\<open>ValueError\<close>, and in
  \<open>host_with_syntax_error\<close> it holds a text that \<^verbatim>\<open>ast.parse\<close> rejects with \<^verbatim>\<open>SyntaxError\<close>.
\<close>

definition six_files :: "fpath list" where
  "six_files = [[''a.py''], [''b.py''], [''c.py''], [''d.py''], [''e.py''], [''f.py'']]"


definition flat_fs :: filesystem where
  "flat_fs =
     \<lparr>fs_is_file = (\<lambda>p. p \<in> set (map (\<lambda>f. ''repo'' # f) six_files)),
      fs_is_dir = (\<lambda>p. p = [] \<or> p = [''repo'']),
      fs_exists = (\<lambda>p. p = [] \<or> p = [''repo''] \<or> p \<in> set (map (\<lambda>f. ''repo'' # f) six_files)),
      fs_iterdir = (\<lambda>p. if p = [''repo''] then map hd six_files
                         else if p = [] then [''repo''] else [])\<rparr>"



definition host_with_syntax_error :: host where
  "host_with_syntax_error =
     \<lparr>read_text = (\<lambda>p. if p = [''repo'', ''a.py''] then Inr ''def'' else Inr []),
      parse = (\<lambda>s. if s = [] then Parsed (Module []) else Syntax_Error ''invalid syntax''),
      unparse = unparse_names, files = flat_fs, stdlib_module_names = {''os'', ''sys''}\<rparr>"


section \<open>The walk visits every node once\<close>

lemma mset_walk_queue: "mset (walk_queue q) = mset (concat (map subnodes q))"
proof (induction q rule: walk_queue.induct)
  case 1
  show ?case by simp
next
  case (2 n todo)
  have "mset (walk_queue (n # todo)) = {#n#} + mset (walk_queue (todo @ iter_child_nodes n))"
    by simp
  also have "\<dots> = {#n#} + mset (concat (map subnodes (todo @ iter_child_nodes n)))"
    using "2.IH" by simp
  also have "\<dots> = {#n#} + mset (concat (map subnodes (iter_child_nodes n)))
                   + mset (concat (map subnodes todo))"
    by simp
  also have "{#n#} + mset (concat (map subnodes (iter_child_nodes n))) = mset (subnodes n)"
    by (subst subnodes.simps) simp
  finally show ?case by simp
qed

lemma mset_walk: "mset (walk n) = mset (subnodes n)"
  by (simp only: walk_def mset_walk_queue) simp

lemma set_walk: "set (walk n) = set (subnodes n)"
  using mset_walk [of n] by (metis set_mset_mset)

lemma walk_self: "n \<in> set (walk n)"
  by (simp add: walk_def)

lemma subnodes_child:
  "c \<in> set (iter_child_nodes n) \<Longrightarrow> set (subnodes c) \<subseteq> set (subnodes n)"
  by (subst (2) subnodes.simps) auto

lemma walk_child: "c \<in> set (iter_child_nodes n) \<Longrightarrow> set (walk c) \<subseteq> set (walk n)"
  by (simp add: set_walk subnodes_child)

lemma child_lighter: "c \<in> set (iter_child_nodes n) \<Longrightarrow> node_weight c < node_weight n"
  using children_lighter [of n]
    member_le_sum_list [of "node_weight c" "map node_weight (iter_child_nodes n)"]
  by auto

lemma subnodes_self: "n \<in> set (subnodes n)"
  by (subst subnodes.simps) simp

lemma sum_walk: "sum_list (map f (walk n)) = sum_list (map (f :: ast \<Rightarrow> int) (subnodes n))"
proof -
  have "sum_list (map f (walk n)) = sum_mset (image_mset f (mset (walk n)))"
    by (metis mset_map sum_mset_sum_list)
  also have "\<dots> = sum_mset (image_mset f (mset (subnodes n)))"
    by (simp only: mset_walk)
  also have "\<dots> = sum_list (map f (subnodes n))"
    by (metis mset_map sum_mset_sum_list)
  finally show ?thesis .
qed

section \<open>Cyclomatic complexity\<close>

lemma foldl_add:
  "foldl (\<lambda>count child. count + f child) a xs = a + sum_list (map (f :: 'a \<Rightarrow> int) xs)"
  by (induction xs arbitrary: a) auto

lemma sum_cc_increment:
  "sum_list (map cc_increment ns) =
      int (length (filter conditional ns)) + int (length (filter loop ns))
      + int (length (filter exception_handler ns)) + int (length (filter with_block ns))
      + int (length (filter assertion ns))
      + (\<Sum>vals \<leftarrow> [vals. BoolOp vals \<leftarrow> ns]. int (length vals) - 1)
      + (\<Sum>cases \<leftarrow> [cases. Match subject cases \<leftarrow> ns]. int (length cases))"
proof (induction ns)
  case Nil
  show ?case by simp
next
  case (Cons n ns)
  then show ?case by (cases n) simp_all
qed

text \<open>
  Claim C1. The cyclomatic complexity of a function is 1 plus the number of its decision
  points: conditionals, loops, exception handlers, with-blocks and assertions count one
  each, a boolean chain counts its operands less one, a match statement counts its cases.
  For \<^verbatim>\<open>def f(x): return x if x > 0 else -x\<close> it is 2, and the control-flow record of
  that function lists no raised and no caught exception.
\<close>

theorem cyclomatic_is_one_plus_decision_points:
  "cyclomatic_complexity f = 1 + decision_points f
   \<and> cyclomatic_complexity scenario_A = 2
   \<and> exception_types_raised (analyze_control_flow unp scenario_A) = []
   \<and> exception_types_caught (analyze_control_flow unp scenario_A) = []"
proof (intro conjI)
  show "cyclomatic_complexity f = 1 + decision_points f"
    unfolding cyclomatic_complexity_def decision_points_def Let_def foldl_add sum_walk
      sum_cc_increment
    by simp
  show "cyclomatic_complexity scenario_A = 2"
    by (simp add: cyclomatic_complexity_def walk_def scenario_A_def)
  show "exception_types_raised (analyze_control_flow unp scenario_A) = []"
    by (simp add: analyze_control_flow_def walk_def scenario_A_def list_set_Nil)
  show "exception_types_caught (analyze_control_flow unp scenario_A) = []"
    by (simp add: analyze_control_flow_def walk_def scenario_A_def list_set_Nil)
qed

section \<open>Bounds of the metrics\<close>

lemma cc_increment_nonneg: "boolop_ok c \<Longrightarrow> 0 \<le> cc_increment c"
  by (cases c) auto

lemma cyclomatic_ge_1:
  assumes "list_all boolop_ok (walk n)"
  shows "1 \<le> cyclomatic_complexity n"
proof -
  have "0 \<le> sum_list (map cc_increment (walk n))"
    using assms by (intro sum_list_nonneg) (auto simp: list_all_iff cc_increment_nonneg)
  then show ?thesis by (simp add: cyclomatic_complexity_def foldl_add)
qed

lemma cognitive_nonneg:
  "\<forall>c \<in> set (subnodes n). boolop_ok c \<Longrightarrow> 0 \<le> d \<Longrightarrow> 0 \<le> cognitive_complexity n d"
proof (induction n arbitrary: d rule: measure_induct_rule [where f = node_weight])
  case (less n)
  show ?case
  proof (subst cognitive_complexity.simps, rule sum_list_nonneg)
    fix x
    assume "x \<in> set (map (\<lambda>child.
       (case child of
          If t b e \<Rightarrow> 1 + d + cognitive_complexity child (d + 1)
        | For t i b e \<Rightarrow> 1 + d + cognitive_complexity child (d + 1)
        | While t b e \<Rightarrow> 1 + d + cognitive_complexity child (d + 1)
        | ExceptHandler t b \<Rightarrow> 1 + d + cognitive_complexity child (d + 1)
        | Match s cases \<Rightarrow> 1 + d + cognitive_complexity child (d + 1)
        | BoolOp vals \<Rightarrow> int (length vals) - 1 + cognitive_complexity child d
        | _ \<Rightarrow> cognitive_complexity child d))
       (iter_child_nodes n))"
    then obtain c where c: "c \<in> set (iter_child_nodes n)" and x: "x = (case c of
          If t b e \<Rightarrow> 1 + d + cognitive_complexity c (d + 1)
        | For t i b e \<Rightarrow> 1 + d + cognitive_complexity c (d + 1)
        | While t b e \<Rightarrow> 1 + d + cognitive_complexity c (d + 1)
        | ExceptHandler t b \<Rightarrow> 1 + d + cognitive_complexity c (d + 1)
        | Match s cases \<Rightarrow> 1 + d + cognitive_complexity c (d + 1)
        | BoolOp vals \<Rightarrow> int (length vals) - 1 + cognitive_complexity c d
        | _ \<Rightarrow> cognitive_complexity c d)"
      by auto
    have lighter: "node_weight c < node_weight n" using c by (rule child_lighter)
    have sub: "\<forall>c' \<in> set (subnodes c). boolop_ok c'"
      using less.prems(1) subnodes_child [OF c] by blast
    have ok: "boolop_ok c"
      using sub subnodes_self [of c] by blast
    have ih0: "0 \<le> cognitive_complexity c d"
      using less.IH [OF lighter sub] less.prems(2) by simp
    have ih1: "0 \<le> cognitive_complexity c (d + 1)"
      using less.IH [OF lighter sub, of "d + 1"] less.prems(2) by simp
    show "0 \<le> x"
      using ih0 ih1 ok less.prems(2) unfolding x by (cases c) simp_all
  qed
qed

lemma foldl_max_ge: "(a :: int) \<le> foldl (\<lambda>m x. max m x) a xs"
proof (induction xs arbitrary: a)
  case Nil
  show ?case by simp
next
  case (Cons x xs)
  have "a \<le> max a x" by simp
  also have "\<dots> \<le> foldl (\<lambda>m x. max m x) (max a x) xs" by (rule Cons.IH)
  finally show ?case by simp
qed

lemma nesting_ge_current: "current \<le> max_nesting_depth node current"
  by (subst max_nesting_depth.simps) (rule foldl_max_ge)

text \<open>
  Claim C5. For every function that the analyzer is given by the parser and analyzes, the
  metrics satisfy: cyclomatic at least 1, cognitive at least 0, nesting depth at least 0,
  line count at least 1.
\<close>

theorem metrics_bounds:
  assumes "parser_tree node"
    and "analyze_function unp node module_name class_name = Inr info"
  shows "1 \<le> cyclomatic (complexity info) \<and> 0 \<le> cognitive (complexity info)
         \<and> 0 \<le> nesting_depth (complexity info) \<and> 1 \<le> loc (complexity info)"
proof -
  have all: "\<forall>c \<in> set (walk node). boolop_ok c \<and> span_ok c \<and> arguments_ok c"
    using assms(1) by (simp add: parser_tree_def list_all_iff)
  have cc: "1 \<le> cyclomatic_complexity node"
    using all by (intro cyclomatic_ge_1) (simp add: list_all_iff)
  have cog: "0 \<le> cognitive_complexity node 0"
    using all by (intro cognitive_nonneg) (simp_all add: set_walk)
  have nest: "0 \<le> max_nesting_depth node 0" by (rule nesting_ge_current)
  have span: "span_ok node" using all walk_self [of node] by blast
  show ?thesis
    using assms(2) cc cog nest span
    by (cases node) (auto simp: analyze_def_def Let_def split: sum.splits option.splits)
qed

theorem metrics_bounds_witness:
  "parser_tree scenario_A
   \<and> (\<exists>info. analyze_function (\<lambda>n. ''?'') scenario_A ''m'' None = Inr info
        \<and> 1 \<le> cyclomatic (complexity info) \<and> 0 \<le> cognitive (complexity info)
        \<and> 0 \<le> nesting_depth (complexity info) \<and> 1 \<le> loc (complexity info))"
proof -
  have p: "parser_tree scenario_A"
    by (simp add: parser_tree_def scenario_A_def walk_def)
  obtain info where i: "analyze_function (\<lambda>n. ''?'') scenario_A ''m'' None = Inr info"
    by (simp add: scenario_A_def analyze_def_def kwonly_params_def Let_def)
  from metrics_bounds [OF p i] p i show ?thesis by blast
qed

section \<open>Generator and coroutine flags\<close>

lemma cf_step_is_coroutine: "is_coroutine (cf_step unp s c) = is_coroutine s"
  by (cases c) (simp_all split: option.splits)

lemma cf_step_is_generator:
  "is_generator (cf_step unp s c) = (is_generator s \<or> is_Yield c \<or> is_YieldFrom c)"
  by (cases c) (simp_all split: option.splits)

lemma cf_step_is_async_generator:
  "is_async_generator (cf_step unp s c)
     = (is_async_generator s \<or> (is_coroutine s \<and> is_Yield c))"
  by (cases c) (auto split: option.splits)

lemma cf_fold_is_coroutine: "is_coroutine (foldl (cf_step unp) s xs) = is_coroutine s"
  by (induction xs arbitrary: s) (simp_all add: cf_step_is_coroutine)

lemma cf_fold_is_generator:
  "is_generator (foldl (cf_step unp) s xs)
     = (is_generator s \<or> (\<exists>c \<in> set xs. is_Yield c \<or> is_YieldFrom c))"
  by (induction xs arbitrary: s) (auto simp: cf_step_is_generator)

lemma cf_fold_is_async_generator:
  "is_async_generator (foldl (cf_step unp) s xs)
     = (is_async_generator s \<or> (is_coroutine s \<and> (\<exists>c \<in> set xs. is_Yield c)))"
  by (induction xs arbitrary: s)
     (auto simp: cf_step_is_async_generator cf_step_is_coroutine)

text \<open>
  Claim C7. For every asynchronous function that contains a \<^verbatim>\<open>yield\<close>, the control-flow
  record has \<open>is_coroutine\<close> and \<open>is_async_generator\<close> set; for an asynchronous function
  without any yield, in either form (\<^verbatim>\<open>yield\<close> or \<^verbatim>\<open>yield from\<close>), \<open>is_generator\<close> is
  not set.
\<close>

theorem async_generator_flags:
  assumes "is_AsyncFunctionDef node"
  shows "((\<exists>c \<in> set (walk node). is_Yield c) \<longrightarrow>
            is_coroutine (analyze_control_flow unp node)
            \<and> is_async_generator (analyze_control_flow unp node))
         \<and> ((\<forall>c \<in> set (walk node). \<not> is_Yield c \<and> \<not> is_YieldFrom c) \<longrightarrow>
            \<not> is_generator (analyze_control_flow unp node))"
  using assms
  by (auto simp: analyze_control_flow_def Let_def cf_fold_is_coroutine cf_fold_is_generator
        cf_fold_is_async_generator)

theorem async_generator_flags_witness:
  "is_AsyncFunctionDef scenario_C_yield
   \<and> (\<exists>c \<in> set (walk scenario_C_yield). is_Yield c)
   \<and> is_coroutine (analyze_control_flow unparse_names scenario_C_yield)
   \<and> is_async_generator (analyze_control_flow unparse_names scenario_C_yield)
   \<and> is_AsyncFunctionDef scenario_C_plain
   \<and> filter (\<lambda>c. is_Yield c \<or> is_YieldFrom c) (walk scenario_C_plain) = []
   \<and> \<not> is_generator (analyze_control_flow unparse_names scenario_C_plain)"
proof -
  have a: "is_AsyncFunctionDef scenario_C_yield" by (simp add: scenario_C_yield_def)
  have y: "\<exists>c \<in> set (walk scenario_C_yield). is_Yield c"
    by (simp add: scenario_C_yield_def walk_def)
  have b: "is_AsyncFunctionDef scenario_C_plain" by (simp add: scenario_C_plain_def)
  have n: "\<forall>c \<in> set (walk scenario_C_plain). \<not> is_Yield c \<and> \<not> is_YieldFrom c"
    by (simp add: scenario_C_plain_def walk_def)
  have f: "filter (\<lambda>c. is_Yield c \<or> is_YieldFrom c) (walk scenario_C_plain) = []"
    by (simp add: scenario_C_plain_def walk_def)
  from async_generator_flags [OF a, of unparse_names] async_generator_flags [OF b, of unparse_names]
    a y b n f
  show ?thesis by blast
qed

section \<open>Purity\<close>


lemma insert_not_Nil [simp]: "List.insert x xs \<noteq> []"
  by (auto simp: List.insert_def)

definition df_inv :: "df_locals \<Rightarrow> bool" where
  "df_inv s \<longleftrightarrow>
     (l_globals_written s \<noteq> [] \<or> l_instance_attrs_written s \<noteq> [] \<or> l_args_mutated s \<noteq> []
        \<or> l_declared_globals s \<noteq> [] \<longrightarrow> l_has_side_effects s)"

lemma assign_target_inv: "df_inv s \<Longrightarrow> df_inv (assign_target pn s t)"
  by (auto simp: df_inv_def assign_target_def split: option.splits prod.splits)

lemma assign_targets_inv: "df_inv s \<Longrightarrow> df_inv (foldl (assign_target pn) s ts)"
  by (induction ts arbitrary: s) (simp_all add: assign_target_inv)

lemma augassign_target_inv: "df_inv s \<Longrightarrow> df_inv (augassign_target s t)"
  by (auto simp: df_inv_def augassign_target_def split: option.splits prod.splits)

lemma call_on_attribute_inv: "df_inv s \<Longrightarrow> df_inv (call_on_attribute pn s v a)"
  by (auto simp: df_inv_def call_on_attribute_def Let_def split: option.splits prod.splits)

lemma df_step_inv: "df_inv s \<Longrightarrow> df_inv (df_step unp pn s c)"
proof (cases c)
  case (Call f args kws)
  assume "df_inv s"
  then have "df_inv (s\<lparr>l_calls := l_calls s @ [unp f]\<rparr>)" by (simp add: df_inv_def)
  then show ?thesis
    using Call by (auto simp: Let_def call_on_attribute_inv split: option.splits)
qed (auto simp: assign_targets_inv augassign_target_inv, auto simp: df_inv_def)

lemma df_fold_inv: "df_inv s \<Longrightarrow> df_inv (foldl (df_step unp pn) s xs)"
  by (induction xs arbitrary: s) (simp_all add: df_step_inv)

lemma assign_target_calls: "l_calls (assign_target pn s t) = l_calls s"
  by (auto simp: assign_target_def split: option.splits prod.splits)

lemma assign_targets_calls: "l_calls (foldl (assign_target pn) s ts) = l_calls s"
  by (induction ts arbitrary: s) (simp_all add: assign_target_calls)

lemma augassign_target_calls: "l_calls (augassign_target s t) = l_calls s"
  by (auto simp: augassign_target_def split: option.splits prod.splits)

lemma call_on_attribute_calls: "l_calls (call_on_attribute pn s v a) = l_calls s"
  by (auto simp: call_on_attribute_def Let_def split: option.splits prod.splits)

lemma df_step_calls:
  "l_calls (df_step unp pn s c) = [] \<longleftrightarrow> l_calls s = [] \<and> \<not> is_Call c"
  by (cases c)
     (auto simp: Let_def assign_targets_calls augassign_target_calls call_on_attribute_calls
           split: option.splits)

lemma df_fold_calls:
  "l_calls (foldl (df_step unp pn) s xs) = [] \<longleftrightarrow> l_calls s = [] \<and> (\<forall>c \<in> set xs. \<not> is_Call c)"
  by (induction xs arbitrary: s) (auto simp: df_step_calls)

lemma sort_eq_Nil: "sort xs = [] \<longleftrightarrow> xs = []"
  by (metis length_sort length_0_conv)

lemma assign_target_effects_mono:
  "l_has_side_effects s \<Longrightarrow> l_has_side_effects (assign_target pn s t)"
  by (auto simp: assign_target_def split: option.splits prod.splits)

lemma assign_targets_effects_mono:
  "l_has_side_effects s \<Longrightarrow> l_has_side_effects (foldl (assign_target pn) s ts)"
  by (induction ts arbitrary: s) (simp_all add: assign_target_effects_mono)

lemma augassign_target_effects_mono:
  "l_has_side_effects s \<Longrightarrow> l_has_side_effects (augassign_target s t)"
  by (auto simp: augassign_target_def split: option.splits prod.splits)

lemma call_on_attribute_effects_mono:
  "l_has_side_effects s \<Longrightarrow> l_has_side_effects (call_on_attribute pn s v a)"
  by (auto simp: call_on_attribute_def Let_def split: option.splits prod.splits)

lemma df_step_effects_mono:
  "l_has_side_effects s \<Longrightarrow> l_has_side_effects (df_step unp pn s c)"
  by (cases c)
     (auto simp: Let_def assign_targets_effects_mono augassign_target_effects_mono
        call_on_attribute_effects_mono split: option.splits)

lemma df_fold_effects_mono:
  "l_has_side_effects s \<Longrightarrow> l_has_side_effects (foldl (df_step unp pn) s xs)"
  by (induction xs arbitrary: s) (simp_all add: df_step_effects_mono)

lemma self_target_assign:
  "self_target t \<Longrightarrow> l_has_side_effects (assign_target pn s t)"
  by (induction t rule: self_target.induct) (simp_all add: assign_target_def)

lemma self_target_augassign:
  "self_target t \<Longrightarrow> l_has_side_effects (augassign_target s t)"
  by (induction t rule: self_target.induct) (simp_all add: augassign_target_def)

lemma item_of_parameter_assign:
  "item_of_parameter pn t \<Longrightarrow> l_has_side_effects (assign_target pn s t)"
  by (induction pn t rule: item_of_parameter.induct) (simp_all add: assign_target_def)

lemma mutating_call_effects:
  "mutating_call pn f \<Longrightarrow> attribute_parts f = Some (v, a) \<Longrightarrow>
     l_has_side_effects (call_on_attribute pn s v a)"
  by (induction pn f rule: mutating_call.induct)
     (auto simp: call_on_attribute_def Let_def split: option.splits prod.splits)

lemma mutating_call_attribute: "mutating_call pn f \<Longrightarrow> \<exists>v a. attribute_parts f = Some (v, a)"
  by (induction pn f rule: mutating_call.induct) simp_all

lemma assign_targets_effects:
  "list_ex (\<lambda>t. self_target t \<or> item_of_parameter pn t) ts \<Longrightarrow>
     l_has_side_effects (foldl (assign_target pn) s ts)"
proof (induction ts arbitrary: s)
  case Nil
  then show ?case by simp
next
  case (Cons t ts)
  show ?case
  proof (cases "self_target t \<or> item_of_parameter pn t")
    case True
    then have "l_has_side_effects (assign_target pn s t)"
      using self_target_assign item_of_parameter_assign by blast
    then show ?thesis by (simp add: assign_targets_effects_mono)
  next
    case False
    with Cons.prems have "list_ex (\<lambda>t. self_target t \<or> item_of_parameter pn t) ts" by simp
    then show ?thesis using Cons.IH by simp
  qed
qed

lemma df_step_effects:
  assumes "scope_declaration c \<or> attribute_write c \<or> parameter_mutation pn c"
  shows "l_has_side_effects (df_step unp pn s c)"
proof (cases c)
  case (Assign targets v l)
  with assms have "list_ex (\<lambda>t. self_target t \<or> item_of_parameter pn t) targets"
    by (auto simp: list_ex_iff)
  then show ?thesis using Assign by (simp add: assign_targets_effects)
next
  case (AugAssign t v)
  with assms show ?thesis by (simp add: self_target_augassign)
next
  case (Call f args kws)
  with assms have m: "mutating_call pn f" by simp
  then obtain v a where p: "attribute_parts f = Some (v, a)"
    using mutating_call_attribute by blast
  from mutating_call_effects [OF m p] show ?thesis using Call p by (simp add: Let_def)
qed (use assms in simp_all)

lemma df_fold_effects:
  assumes "\<exists>c \<in> set xs. scope_declaration c \<or> attribute_write c \<or> parameter_mutation pn c"
  shows "l_has_side_effects (foldl (df_step unp pn) s xs)"
  using assms
proof (induction xs arbitrary: s)
  case Nil
  then show ?case by simp
next
  case (Cons x xs)
  show ?case
  proof (cases "scope_declaration x \<or> attribute_write x \<or> parameter_mutation pn x")
    case True
    then have "l_has_side_effects (df_step unp pn s x)" by (rule df_step_effects)
    then show ?thesis by (simp add: df_fold_effects_mono)
  next
    case False
    with Cons.prems
    have "\<exists>c \<in> set xs. scope_declaration c \<or> attribute_write c \<or> parameter_mutation pn c"
      by auto
    then show ?thesis using Cons.IH by simp
  qed
qed

text \<open>
  Claim C6, amended. The function \<^verbatim>\<open>def f(): return 1\<close> is analyzed as pure. Every
  function that contains a call expression is analyzed as impure. So is every function
  that contains a \<^verbatim>\<open>global\<close> or \<^verbatim>\<open>nonlocal\<close> declaration, an assignment or augmented
  assignment whose target is \<^verbatim>\<open>self.attr\<close>, an assignment whose target is an item
  \<^verbatim>\<open>p[...]\<close> of a parameter, or a call of a mutating method on a parameter; and so is
  every function for which the analysis records a call, a written global, a written
  instance attribute or a mutated parameter.
\<close>

theorem purity:
  "is_pure (analyze_data_flow unp scenario_D)
   \<and> ((\<exists>c \<in> set (walk node). is_Call c) \<longrightarrow> \<not> is_pure (analyze_data_flow unp node))
   \<and> ((\<exists>c \<in> set (walk node). scope_declaration c) \<longrightarrow>
         \<not> is_pure (analyze_data_flow unp node))
   \<and> ((\<exists>c \<in> set (walk node). attribute_write c) \<longrightarrow>
         \<not> is_pure (analyze_data_flow unp node))
   \<and> ((\<exists>c \<in> set (walk node). parameter_mutation (param_names_of (function_args node)) c) \<longrightarrow>
         \<not> is_pure (analyze_data_flow unp node))
   \<and> (calls_made (analyze_data_flow unp node) \<noteq> []
        \<or> globals_written (analyze_data_flow unp node) \<noteq> []
        \<or> instance_attrs_written (analyze_data_flow unp node) \<noteq> []
        \<or> args_mutated (analyze_data_flow unp node) \<noteq> []
      \<longrightarrow> \<not> is_pure (analyze_data_flow unp node))"
proof (intro conjI impI)
  let ?pn = "param_names_of (function_args node)"
  have eff: "\<exists>c \<in> set (walk node). scope_declaration c \<or> attribute_write c
                \<or> parameter_mutation ?pn c \<Longrightarrow> \<not> is_pure (analyze_data_flow unp node)"
    using df_fold_effects [of "walk node" ?pn unp]
    by (simp add: analyze_data_flow_def df_walk_def Let_def)
  show "is_pure (analyze_data_flow unp scenario_D)"
    by (simp add: analyze_data_flow_def df_walk_def scenario_D_def walk_def)
  show "\<not> is_pure (analyze_data_flow unp node)" if "\<exists>c \<in> set (walk node). is_Call c"
    using that df_fold_calls by (simp add: analyze_data_flow_def df_walk_def Let_def)
  show "\<not> is_pure (analyze_data_flow unp node)" if "\<exists>c \<in> set (walk node). scope_declaration c"
    using that eff by blast
  show "\<not> is_pure (analyze_data_flow unp node)" if "\<exists>c \<in> set (walk node). attribute_write c"
    using that eff by blast
  show "\<not> is_pure (analyze_data_flow unp node)"
    if "\<exists>c \<in> set (walk node). parameter_mutation ?pn c"
    using that eff by blast
  have "df_inv (df_walk unp node)"
    unfolding df_walk_def by (rule df_fold_inv) (simp add: df_inv_def)
  then show "\<not> is_pure (analyze_data_flow unp node)"
    if "calls_made (analyze_data_flow unp node) \<noteq> []
        \<or> globals_written (analyze_data_flow unp node) \<noteq> []
        \<or> instance_attrs_written (analyze_data_flow unp node) \<noteq> []
        \<or> args_mutated (analyze_data_flow unp node) \<noteq> []"
    using that
    by (auto simp: analyze_data_flow_def Let_def df_inv_def list_set_eq_Nil sort_eq_Nil)
qed

theorem purity_witness:
  "(\<exists>c \<in> set (walk scenario_effects). is_Call c)
   \<and> (\<exists>c \<in> set (walk scenario_effects). scope_declaration c)
   \<and> (\<exists>c \<in> set (walk scenario_effects). attribute_write c)
   \<and> (\<exists>c \<in> set (walk scenario_effects).
         parameter_mutation (param_names_of (function_args scenario_effects)) c)
   \<and> calls_made (analyze_data_flow unparse_names scenario_effects) \<noteq> []
   \<and> \<not> is_pure (analyze_data_flow unparse_names scenario_effects)"
proof -
  have w: "walk scenario_effects =
     [scenario_effects,
      Arguments [] [Arg ''self'' None, Arg ''xs'' None] None [] [] None [],
      Global [''G''],
      Assign [Attribute (Name ''self'') ''a''] (Constant (CInt 1)) 3,
      Assign [Subscript (Name ''xs'') (Constant (CInt 0))] (Constant (CInt 2)) 4,
      Expr (Call (Name ''g'') [] []),
      Arg ''self'' None, Arg ''xs'' None,
      Attribute (Name ''self'') ''a'', Constant (CInt 1),
      Subscript (Name ''xs'') (Constant (CInt 0)), Constant (CInt 2),
      Call (Name ''g'') [] [],
      Name ''self'', Name ''xs'', Constant (CInt 0), Name ''g'']"
    by (simp add: walk_def scenario_effects_def)
  have c: "\<exists>c \<in> set (walk scenario_effects). is_Call c" unfolding w by simp
  have g: "\<exists>c \<in> set (walk scenario_effects). scope_declaration c" unfolding w by simp
  have a: "\<exists>c \<in> set (walk scenario_effects). attribute_write c" unfolding w by simp
  have p: "\<exists>c \<in> set (walk scenario_effects).
         parameter_mutation (param_names_of (function_args scenario_effects)) c"
    unfolding w by (simp add: scenario_effects_def)
  have m: "calls_made (analyze_data_flow unparse_names scenario_effects) \<noteq> []"
    using c df_fold_calls
    by (simp add: analyze_data_flow_def df_walk_def Let_def list_set_eq_Nil)
  from purity [of unparse_names scenario_effects] c g a p m show ?thesis by blast
qed


text \<open>
  Claim C6 as stated fails on \<^verbatim>\<open>def m(self): self.a, self.b = 1, 2\<close>: the function writes
  two attributes of \<^verbatim>\<open>self\<close>, and the analysis, which looks at the targets of an
  assignment but not inside a tuple of targets, records no write and answers pure.
\<close>

theorem purity_counterexample:
  "walk scenario_tuple_write =
     [scenario_tuple_write,
      Arguments [] [Arg ''self'' None] None [] [] None [],
      Assign [Tuple [Attribute (Name ''self'') ''a'', Attribute (Name ''self'') ''b'']]
             (Tuple [Constant (CInt 1), Constant (CInt 2)]) 2,
      Arg ''self'' None,
      Tuple [Attribute (Name ''self'') ''a'', Attribute (Name ''self'') ''b''],
      Tuple [Constant (CInt 1), Constant (CInt 2)],
      Attribute (Name ''self'') ''a'', Attribute (Name ''self'') ''b'',
      Constant (CInt 1), Constant (CInt 2),
      Name ''self'', Name ''self'']
   \<and> analyze_data_flow unparse_names scenario_tuple_write =
       \<lparr>calls_made = [], globals_read = [], globals_written = [], nonlocals = [],
        args_mutated = [], instance_attrs_read = [''a'', ''b''], instance_attrs_written = [],
        is_pure = True\<rparr>"
proof -
  have w: "walk scenario_tuple_write =
     [scenario_tuple_write,
      Arguments [] [Arg ''self'' None] None [] [] None [],
      Assign [Tuple [Attribute (Name ''self'') ''a'', Attribute (Name ''self'') ''b'']]
             (Tuple [Constant (CInt 1), Constant (CInt 2)]) 2,
      Arg ''self'' None,
      Tuple [Attribute (Name ''self'') ''a'', Attribute (Name ''self'') ''b''],
      Tuple [Constant (CInt 1), Constant (CInt 2)],
      Attribute (Name ''self'') ''a'', Attribute (Name ''self'') ''b'',
      Constant (CInt 1), Constant (CInt 2),
      Name ''self'', Name ''self'']"
    by (simp add: walk_def scenario_tuple_write_def)
  have "analyze_data_flow unparse_names scenario_tuple_write =
       \<lparr>calls_made = [], globals_read = [], globals_written = [], nonlocals = [],
        args_mutated = [], instance_attrs_read = [''a'', ''b''], instance_attrs_written = [],
        is_pure = True\<rparr>"
    unfolding analyze_data_flow_def df_walk_def w
    by (simp add: scenario_tuple_write_def assign_target_def globals_read_of_def
          list_set_def Let_def)
  with w show ?thesis by simp
qed

section \<open>Edge-case hints\<close>

lemma param_hints_unconditional:
  assumes "arg_name arg \<noteq> ''self''" and "arg_name arg \<noteq> ''cls''"
  shows "(\<exists>h \<in> set (param_hints unp arg). parameter h = Some (arg_name arg) \<and> EdgeCaseHint.category h = ''none_input'')
       \<and> (\<exists>h \<in> set (param_hints unp arg). parameter h = Some (arg_name arg) \<and> EdgeCaseHint.category h = ''empty_input'')
       \<and> (\<exists>h \<in> set (param_hints unp arg). parameter h = Some (arg_name arg) \<and> EdgeCaseHint.category h = ''type_mismatch'')"
  using assms by (simp add: param_hints_def Let_def)

lemma param_hints_parameter:
  "h \<in> set (param_hints unp arg) \<Longrightarrow> parameter h = Some (arg_name arg)"
  by (auto simp: param_hints_def Let_def split: option.splits if_splits)

lemma param_hints_category:
  "h \<in> set (param_hints unp arg) \<Longrightarrow> EdgeCaseHint.category h \<noteq> ''exception_path''"
  by (auto simp: param_hints_def Let_def split: option.splits if_splits)

lemma raise_hint_inj: "raise_hint x = raise_hint y \<longleftrightarrow> x = y"
  by (simp add: raise_hint_def)

lemma catch_hint_inj: "catch_hint x = catch_hint y \<longleftrightarrow> x = y"
  by (simp add: catch_hint_def)

lemma raise_hint_not_catch_hint: "raise_hint x \<noteq> catch_hint y"
  by (simp add: raise_hint_def catch_hint_def)

lemma count_list_0: "x \<notin> set xs \<Longrightarrow> count_list xs x = 0"
  by (simp add: count_list_0_iff)

lemma count_list_map_inj_distinct:
  assumes "\<And>a b. f a = f b \<longleftrightarrow> a = b" and "distinct xs" and "x \<in> set xs"
  shows "count_list (map f xs) (f x) = 1"
  using assms(2,3)
proof (induction xs)
  case Nil
  then show ?case by simp
next
  case (Cons a xs)
  show ?case
  proof (cases "a = x")
    case True
    with Cons.prems have "f x \<notin> set (map f xs)" using assms(1) by auto
    then have "count_list (map f xs) (f x) = 0" by (rule count_list_0)
    with True show ?thesis by simp
  next
    case False
    with Cons show ?thesis using assms(1) by auto
  qed
qed

lemma count_list_append: "count_list (xs @ ys) x = count_list xs x + count_list ys x"
  by (induction xs) auto

lemma filter_none: "(\<And>x. x \<in> set xs \<Longrightarrow> \<not> P x) \<Longrightarrow> filter P xs = []"
  by (induction xs) auto

lemma filter_all: "(\<And>x. x \<in> set xs \<Longrightarrow> P x) \<Longrightarrow> filter P xs = xs"
  by (induction xs) auto

text \<open>
  Claim C8, amended. For every parameter of the positional-or-keyword, keyword-only and
  positional-only lists that is not named \<^verbatim>\<open>self\<close> or \<^verbatim>\<open>cls\<close>, the inference emits a
  \<^verbatim>\<open>none_input\<close>, an \<^verbatim>\<open>empty_input\<close> and a \<^verbatim>\<open>type_mismatch\<close> hint, whatever the
  annotation; only these parameters get hints, so \<^verbatim>\<open>*args\<close> and \<^verbatim>\<open>**kwargs\<close> get none.
  For every distinct raised exception name it emits exactly one raise-path hint and for
  every distinct caught name exactly one handling-path hint, so that a name both raised
  and caught gets one of each; there are no other \<^verbatim>\<open>exception_path\<close> hints.
\<close>

theorem edge_case_hints:
  fixes unp node
  defines "cf \<equiv> analyze_control_flow unp node"
  defines "H \<equiv> infer_edge_cases unp node cf"
  shows "(\<forall>arg \<in> set (hinted_args (function_args node)).
            arg_name arg \<noteq> ''self'' \<and> arg_name arg \<noteq> ''cls'' \<longrightarrow>
              (\<exists>h \<in> set H. parameter h = Some (arg_name arg) \<and> EdgeCaseHint.category h = ''none_input'')
            \<and> (\<exists>h \<in> set H. parameter h = Some (arg_name arg) \<and> EdgeCaseHint.category h = ''empty_input'')
            \<and> (\<exists>h \<in> set H. parameter h = Some (arg_name arg) \<and> EdgeCaseHint.category h = ''type_mismatch''))
         \<and> (\<forall>h \<in> set H. EdgeCaseHint.category h \<noteq> ''exception_path'' \<longrightarrow>
              (\<exists>arg \<in> set (hinted_args (function_args node)). parameter h = Some (arg_name arg)))
         \<and> (\<forall>x \<in> set (exception_types_raised cf). count_list H (raise_hint x) = 1)
         \<and> (\<forall>x \<in> set (exception_types_caught cf). count_list H (catch_hint x) = 1)
         \<and> length (filter (\<lambda>h. EdgeCaseHint.category h = ''exception_path'') H)
             = length (exception_types_raised cf) + length (exception_types_caught cf)"
proof -
  let ?P = "concat (map (param_hints unp) (hinted_args (function_args node)))"
  let ?R = "map raise_hint (exception_types_raised cf)"
  let ?C = "map catch_hint (exception_types_caught cf)"
  have H: "H = ?P @ ?R @ ?C" by (simp add: H_def infer_edge_cases_def)
  have dr: "distinct (exception_types_raised cf)"
    and dc: "distinct (exception_types_caught cf)"
    by (simp_all add: cf_def analyze_control_flow_def Let_def distinct_list_set)
  have P_param: "\<And>h. h \<in> set ?P \<Longrightarrow> parameter h \<noteq> None"
    using param_hints_parameter by fastforce
  have P_cat: "\<And>h. h \<in> set ?P \<Longrightarrow> EdgeCaseHint.category h \<noteq> ''exception_path''"
    using param_hints_category by fastforce
  have 1: "\<forall>arg \<in> set (hinted_args (function_args node)).
            arg_name arg \<noteq> ''self'' \<and> arg_name arg \<noteq> ''cls'' \<longrightarrow>
              (\<exists>h \<in> set H. parameter h = Some (arg_name arg) \<and> EdgeCaseHint.category h = ''none_input'')
            \<and> (\<exists>h \<in> set H. parameter h = Some (arg_name arg) \<and> EdgeCaseHint.category h = ''empty_input'')
            \<and> (\<exists>h \<in> set H. parameter h = Some (arg_name arg) \<and> EdgeCaseHint.category h = ''type_mismatch'')"
  proof (intro ballI impI)
    fix arg
    assume a: "arg \<in> set (hinted_args (function_args node))"
      and n: "arg_name arg \<noteq> ''self'' \<and> arg_name arg \<noteq> ''cls''"
    have sub: "set (param_hints unp arg) \<subseteq> set H" using a by (auto simp: H)
    from param_hints_unconditional [of arg unp] n sub
    show "(\<exists>h \<in> set H. parameter h = Some (arg_name arg) \<and> EdgeCaseHint.category h = ''none_input'')
            \<and> (\<exists>h \<in> set H. parameter h = Some (arg_name arg) \<and> EdgeCaseHint.category h = ''empty_input'')
            \<and> (\<exists>h \<in> set H. parameter h = Some (arg_name arg) \<and> EdgeCaseHint.category h = ''type_mismatch'')"
      by blast
  qed
  have 2: "\<forall>h \<in> set H. EdgeCaseHint.category h \<noteq> ''exception_path'' \<longrightarrow>
              (\<exists>arg \<in> set (hinted_args (function_args node)). parameter h = Some (arg_name arg))"
    using param_hints_parameter
    by (fastforce simp: H raise_hint_def catch_hint_def)
  have 3: "\<forall>x \<in> set (exception_types_raised cf). count_list H (raise_hint x) = 1"
  proof
    fix x assume x: "x \<in> set (exception_types_raised cf)"
    have "raise_hint x \<notin> set ?P"
      using P_param [of "raise_hint x"] by (auto simp: raise_hint_def)
    then have "count_list ?P (raise_hint x) = 0" by (rule count_list_0)
    moreover have "count_list ?R (raise_hint x) = 1"
      using raise_hint_inj dr x by (rule count_list_map_inj_distinct)
    moreover have "count_list ?C (raise_hint x) = 0"
      by (intro count_list_0) (auto simp: raise_hint_not_catch_hint)
    ultimately show "count_list H (raise_hint x) = 1" by (simp add: H count_list_append)
  qed
  have 4: "\<forall>x \<in> set (exception_types_caught cf). count_list H (catch_hint x) = 1"
  proof
    fix x assume x: "x \<in> set (exception_types_caught cf)"
    have "catch_hint x \<notin> set ?P"
      using P_param [of "catch_hint x"] by (auto simp: catch_hint_def)
    then have "count_list ?P (catch_hint x) = 0" by (rule count_list_0)
    moreover have "count_list ?R (catch_hint x) = 0"
      using raise_hint_not_catch_hint by (intro count_list_0) (auto simp: eq_commute)
    moreover have "count_list ?C (catch_hint x) = 1"
      using catch_hint_inj dc x by (rule count_list_map_inj_distinct)
    ultimately show "count_list H (catch_hint x) = 1" by (simp add: H count_list_append)
  qed
  have "filter (\<lambda>h. EdgeCaseHint.category h = ''exception_path'') ?P = []"
    using P_cat by (intro filter_none) blast
  moreover have "filter (\<lambda>h. EdgeCaseHint.category h = ''exception_path'') ?R = ?R"
    by (intro filter_all) (auto simp: raise_hint_def)
  moreover have "filter (\<lambda>h. EdgeCaseHint.category h = ''exception_path'') ?C = ?C"
    by (intro filter_all) (auto simp: catch_hint_def)
  ultimately have 5: "length (filter (\<lambda>h. EdgeCaseHint.category h = ''exception_path'') H)
             = length (exception_types_raised cf) + length (exception_types_caught cf)"
    by (simp add: H)
  from 1 2 3 4 5 show ?thesis by blast
qed

theorem edge_case_hints_witness:
  "Arg ''x'' None \<in> set (hinted_args (function_args scenario_hints))
   \<and> ''ValueError'' \<in> set (exception_types_raised (analyze_control_flow unparse_names scenario_hints))
   \<and> ''ValueError'' \<in> set (exception_types_caught (analyze_control_flow unparse_names scenario_hints))
   \<and> (\<exists>h \<in> set (infer_edge_cases unparse_names scenario_hints
                        (analyze_control_flow unparse_names scenario_hints)).
         parameter h = Some ''x'' \<and> EdgeCaseHint.category h = ''none_input'')
   \<and> count_list (infer_edge_cases unparse_names scenario_hints
                    (analyze_control_flow unparse_names scenario_hints))
         (raise_hint ''ValueError'') = 1
   \<and> count_list (infer_edge_cases unparse_names scenario_hints
                    (analyze_control_flow unparse_names scenario_hints))
         (catch_hint ''ValueError'') = 1"
proof -
  have a: "Arg ''x'' None \<in> set (hinted_args (function_args scenario_hints))"
    by (simp add: scenario_hints_def)
  have n: "arg_name (Arg ''x'' None) \<noteq> ''self'' \<and> arg_name (Arg ''x'' None) \<noteq> ''cls''"
    by simp
  have r: "''ValueError'' \<in> set (exception_types_raised
              (analyze_control_flow unparse_names scenario_hints))"
    by (simp add: analyze_control_flow_def scenario_hints_def walk_def raised_name_def
          set_list_set)
  have c: "''ValueError'' \<in> set (exception_types_caught
              (analyze_control_flow unparse_names scenario_hints))"
    by (simp add: analyze_control_flow_def scenario_hints_def walk_def unparse_names_def
          set_list_set)
  from edge_case_hints [of scenario_hints unparse_names] a n r c
  show ?thesis by (simp del: arg_name.simps) (metis arg_name.simps(1))
qed

text \<open>
  Claim C8 as stated fails on \<open>scenario_hints\<close>: \<^verbatim>\<open>rest\<close> is a declared parameter, yet
  every parameter hint is for \<^verbatim>\<open>x\<close>; and \<^verbatim>\<open>ValueError\<close>, the only exception name, gets
  two \<^verbatim>\<open>exception_path\<close> hints.
\<close>

theorem edge_case_hints_counterexample:
  "extract_parameters unparse_names (function_args scenario_hints) =
     Inr [\<lparr>ParameterInfo.name = ''x'', annotation = None, default = None,
           kind = ''POSITIONAL_OR_KEYWORD''\<rparr>,
          \<lparr>ParameterInfo.name = ''rest'', annotation = None, default = None,
           kind = ''VAR_POSITIONAL''\<rparr>]
   \<and> exception_types_raised (analyze_control_flow unparse_names scenario_hints) = [''ValueError'']
   \<and> exception_types_caught (analyze_control_flow unparse_names scenario_hints) = [''ValueError'']
   \<and> map parameter (infer_edge_cases unparse_names scenario_hints
                        (analyze_control_flow unparse_names scenario_hints))
       = [Some ''x'', Some ''x'', Some ''x'', None, None]
   \<and> map EdgeCaseHint.category (infer_edge_cases unparse_names scenario_hints
                       (analyze_control_flow unparse_names scenario_hints))
       = [''none_input'', ''empty_input'', ''type_mismatch'', ''exception_path'',
          ''exception_path'']"
proof -
  have cf: "analyze_control_flow unparse_names scenario_hints =
      \<lparr>branch_count = 1, exception_types_raised = [''ValueError''],
       exception_types_caught = [''ValueError''], has_finally = False, is_generator = False,
       is_async_generator = False, is_coroutine = False, has_match_case = False,
       has_for_else = False, has_while_else = False\<rparr>"
    by (simp add: analyze_control_flow_def scenario_hints_def walk_def raised_name_def
          unparse_names_def list_set_def)
  show ?thesis
    unfolding cf
    by (simp add: scenario_hints_def kwonly_params_def posonly_params_def regular_params_def
          star_param_def get_annotation_def infer_edge_cases_def param_hints_def Let_def
          raise_hint_def catch_hint_def)
qed

section \<open>High-priority targets\<close>

lemma stem1: "path_stem ''tests/test_foo.py'' = ''test_foo''"
  by (simp add: path_stem_def path_name_def name_stem_def rfind_dot_def upt_rec)

lemma tested: "tested_modules [''tests/test_foo.py''] = [''foo'']"
  by (simp add: tested_modules_def stem1 startswith_def)

lemma stem2: "path_stem ''foo.py'' = ''foo''"
  by (simp add: path_stem_def path_name_def name_stem_def rfind_dot_def upt_rec)

lemma str3: "str_int 3 = ''3''"
  by (simp add: str_int_def digits_of.simps)

lemma str10: "str_int 10 = ''10''"
  by (simp add: str_int_def digits_of.simps)

text \<open>
  What the ranking does: the targets are in order of non-increasing complexity, at most
  20 of them, all taken from the entries recorded without a test; the two functions of
  \<open>scenario_E\<close> come out with the one of complexity 10 first.
\<close>

lemma high_priority_sorted:
  "sorted (map (\<lambda>(n, cc, ht). - cc) (high_priority modules test_files))"
  by (simp add: high_priority_def sorted_wrt_take take_map [symmetric])

lemma high_priority_length: "length (high_priority modules test_files) \<le> 20"
  by (simp add: high_priority_def)

lemma high_priority_untested:
  "(n, cc, ht) \<in> set (high_priority modules test_files) \<Longrightarrow>
     \<not> ht \<and> (n, cc, ht) \<in> set (all_funcs modules test_files)"
  by (auto simp: high_priority_def dest!: in_set_takeD)

lemma scenario_E_rank:
  "map fst (high_priority_targets (generate_test_hints [scenario_E] [])) = [''bar.big'', ''bar.small'']"
  by (simp add: generate_test_hints_def high_priority_def all_funcs_def tested_modules_def
        scenario_E_def example_function_def class_methods_def)

text \<open>
  Claim C9 says that the high-priority list holds only functions whose module has no
  associated test file. The module \<^verbatim>\<open>foo.py\<close> has the test file \<^verbatim>\<open>tests/test_foo.py\<close>,
  and its method \<^verbatim>\<open>foo.C.m\<close> is listed all the same, with the reason "no existing tests":
  the loop over the methods records \<^verbatim>\<open>False\<close> where the loop over the top-level
  functions records \<^verbatim>\<open>mod_has_test\<close>.
\<close>

theorem method_listed_despite_test_file:
  "path_stem (path example_module) \<in> set (tested_modules [''tests/test_foo.py''])
   \<and> high_priority_targets (generate_test_hints [example_module] [''tests/test_foo.py''])
       = [(''foo.C.m'', ''cyclomatic_complexity=3, no existing tests'')]"
  by (simp add: generate_test_hints_def high_priority_def all_funcs_def tested stem2
        example_module_def example_class_def example_function_def class_methods_def str3)

lemma method_in_all_funcs:
  assumes "m \<in> set modules" and "cls \<in> set (classes m)" and "func \<in> set (class_methods cls)"
  shows "(FunctionInfo.qualified_name func, cyclomatic (complexity func), False)
           \<in> set (all_funcs modules test_files)"
  using assms unfolding all_funcs_def Let_def by fastforce

lemma set_take_all: "length xs \<le> n \<Longrightarrow> set (take n xs) = set xs"
  by simp

text \<open>
  Claim C10. Every method of every class is recorded with has-test false, whatever the
  test files are; it is among the candidates for the high-priority list, and it is on the
  list whenever there are at most 20 candidates.
\<close>

theorem methods_recorded_untested:
  assumes "m \<in> set modules" and "cls \<in> set (classes m)" and "func \<in> set (class_methods cls)"
  shows "(FunctionInfo.qualified_name func, cyclomatic (complexity func), False)
           \<in> set (all_funcs modules test_files)
       \<and> (FunctionInfo.qualified_name func, cyclomatic (complexity func), False)
           \<in> set (filter (\<lambda>(n, cc, ht). \<not> ht) (all_funcs modules test_files))
       \<and> (length (filter (\<lambda>(n, cc, ht). \<not> ht) (all_funcs modules test_files)) \<le> 20 \<longrightarrow>
            (FunctionInfo.qualified_name func,
             ''cyclomatic_complexity='' @ str_int (cyclomatic (complexity func))
               @ '', no existing tests'')
              \<in> set (high_priority_targets (generate_test_hints modules test_files)))"
proof -
  let ?e = "(FunctionInfo.qualified_name func, cyclomatic (complexity func), False)"
  let ?c = "filter (\<lambda>(n, cc, ht). \<not> ht) (all_funcs modules test_files)"
  have a: "?e \<in> set (all_funcs modules test_files)"
    using assms by (rule method_in_all_funcs)
  then have c: "?e \<in> set ?c" by simp
  have "length ?c \<le> 20 \<longrightarrow> ?e \<in> set (high_priority modules test_files)"
    using c by (simp add: high_priority_def)
  then have "length ?c \<le> 20 \<longrightarrow>
            (FunctionInfo.qualified_name func,
             ''cyclomatic_complexity='' @ str_int (cyclomatic (complexity func))
               @ '', no existing tests'')
              \<in> set (high_priority_targets (generate_test_hints modules test_files))"
    by (force simp: generate_test_hints_def)
  with a c show ?thesis by blast
qed

theorem methods_recorded_untested_witness:
  "example_module \<in> set [example_module]
   \<and> example_class \<in> set (classes example_module)
   \<and> example_function ''foo.C.m'' ''m'' 3 True \<in> set (class_methods example_class)
   \<and> path_stem (path example_module) \<in> set (tested_modules [''tests/test_foo.py''])
   \<and> (''foo.C.m'', 3, False) \<in> set (all_funcs [example_module] [''tests/test_foo.py''])
   \<and> (''foo.C.m'', ''cyclomatic_complexity=3, no existing tests'')
        \<in> set (high_priority_targets
                 (generate_test_hints [example_module] [''tests/test_foo.py'']))"
proof -
  have m: "example_module \<in> set [example_module]" by simp
  have c: "example_class \<in> set (classes example_module)"
    by (simp add: example_module_def)
  have f: "example_function ''foo.C.m'' ''m'' 3 True \<in> set (class_methods example_class)"
    by (simp add: example_class_def class_methods_def)
  have t: "path_stem (path example_module) \<in> set (tested_modules [''tests/test_foo.py''])"
    by (simp add: example_module_def stem2 tested)
  have l: "length (filter (\<lambda>(n, cc, ht). \<not> ht)
             (all_funcs [example_module] [''tests/test_foo.py''])) \<le> 20"
    by (simp add: all_funcs_def example_module_def example_class_def class_methods_def)
  have q: "FunctionInfo.qualified_name (example_function ''foo.C.m'' ''m'' 3 True) = ''foo.C.m''"
    "cyclomatic (complexity (example_function ''foo.C.m'' ''m'' 3 True)) = 3"
    by (simp_all add: example_function_def)
  from methods_recorded_untested [OF m c f, of "[''tests/test_foo.py'']"] l
  show ?thesis using m c f t by (simp add: q str3)
qed

section \<open>Import classification\<close>

lemma walk_up_label: "walk_up fs top_seg repo_root current \<in> {''local'', ''third_party''}"
proof (induction fs top_seg repo_root current rule: walk_up.induct)
  case (1 fs top_seg repo_root current)
  then show ?case by (subst walk_up.simps) auto
qed

lemma walk_up_none:
  assumes "\<And>p. \<not> fs_is_dir fs (p @ [top_seg]) \<and> \<not> fs_is_file fs (p @ [top_seg @ ''.py''])"
  shows "walk_up fs top_seg repo_root current = ''third_party''"
  using assms
proof (induction fs top_seg repo_root current rule: walk_up.induct)
  case (1 fs top_seg repo_root current)
  show ?case
  proof (cases "current \<noteq> repo_root \<and> current \<noteq> parent current")
    case True
    have "walk_up fs top_seg repo_root (parent current) = ''third_party''"
      using "1.IH" True "1.prems" by blast
    then show ?thesis using True "1.prems" by (subst walk_up.simps) simp
  next
    case False
    then show ?thesis by (subst walk_up.simps) auto
  qed
qed

lemma name_suffix_stem: "name_suffix f = ''.py'' \<Longrightarrow> f = name_stem f @ ''.py''"
  by (auto simp: name_suffix_def name_stem_def split: option.splits if_splits) (metis append_take_drop_id)

lemma scan_absent:
  assumes "\<And>p. \<not> fs_is_dir fs (p @ [n]) \<and> \<not> fs_is_file fs (p @ [n @ ''.py''])"
  shows "n \<notin> set (scan_local_packages fs repo_root)"
proof
  assume "n \<in> set (scan_local_packages fs repo_root)"
  then obtain f where f: "f \<in> set (fs_iterdir fs repo_root)"
    and n: "n \<in> set (if name_suffix f = ''.py'' \<and> fs_is_file fs (repo_root @ [f]) then [name_stem f]
        else if fs_is_dir fs (repo_root @ [f]) \<and> f \<notin> set local_exclude
        then (if fs_exists fs (repo_root @ [f, ''__init__.py'']) then [f] else [])
             @ concat (map (\<lambda>sub.
                 if fs_is_dir fs (repo_root @ [f, sub]) \<and> sub \<notin> set local_exclude
                    \<and> fs_exists fs (repo_root @ [f, sub, ''__init__.py''])
                 then [sub] else [])
               (fs_iterdir fs (repo_root @ [f])))
        else [])"
    by (auto simp: scan_local_packages_def)
  show False
  proof (cases "name_suffix f = ''.py'' \<and> fs_is_file fs (repo_root @ [f])")
    case True
    with n have "n = name_stem f" by simp
    with True name_suffix_stem [of f] have "fs_is_file fs (repo_root @ [n @ ''.py''])" by simp
    with assms show False by blast
  next
    case False
    with n have d: "fs_is_dir fs (repo_root @ [f])" by (auto split: if_splits)
    from False n have "n = f \<or> (\<exists>sub. n = sub \<and> fs_is_dir fs (repo_root @ [f, sub]))"
      by (auto split: if_splits)
    then show False
    proof
      assume "n = f"
      with d assms show False by blast
    next
      assume "\<exists>sub. n = sub \<and> fs_is_dir fs (repo_root @ [f, sub])"
      then have "fs_is_dir fs ((repo_root @ [f]) @ [n])" by simp
      with assms show False by blast
    qed
  qed
qed


lemma parent_fixed: "current \<noteq> parent current \<longleftrightarrow> current \<noteq> []"
  by (cases current rule: rev_cases) (auto simp: parent_def)

lemma walk_up_dirs:
  "walk_up fs top_seg repo_root current = ''local'' \<longleftrightarrow>
     list_ex (\<lambda>d. fs_is_dir fs (d @ [top_seg]) \<or> fs_is_file fs (d @ [top_seg @ ''.py'']))
       (dirs_below repo_root current)"
proof (induction fs top_seg repo_root current rule: walk_up.induct)
  case (1 fs top_seg repo_root current)
  show ?case
  proof (cases "current \<noteq> repo_root \<and> current \<noteq> parent current")
    case True
    then have ne: "current \<noteq> repo_root \<and> current \<noteq> []" by (simp add: parent_fixed)
    show ?thesis
    proof (cases "fs_is_dir fs (current @ [top_seg]) \<or> fs_is_file fs (current @ [top_seg @ ''.py''])")
      case hit: True
      then show ?thesis
        using True ne by (subst walk_up.simps, subst dirs_below.simps) simp
    next
      case miss: False
      with "1.IH" True
      have "walk_up fs top_seg repo_root (parent current) = ''local'' \<longleftrightarrow>
         list_ex (\<lambda>d. fs_is_dir fs (d @ [top_seg]) \<or> fs_is_file fs (d @ [top_seg @ ''.py'']))
           (dirs_below repo_root (parent current))"
        by blast
      then show ?thesis
        using True ne miss
        by (subst walk_up.simps, subst dirs_below.simps) (simp add: parent_def)
    qed
  next
    case False
    then have "\<not> (current \<noteq> repo_root \<and> current \<noteq> [])" by (simp add: parent_fixed)
    then show ?thesis
      using False by (subst walk_up.simps, subst dirs_below.simps) auto
  qed
qed

lemma classify_unfold:
  "fst (classify_import stdlib fs cache iname repo_root module_path) =
     (let top_seg = hd (split_on CHR ''.'' iname)
      in if top_seg \<in> stdlib then ''stdlib''
         else if top_seg \<in> set (fst (get_local_packages fs cache repo_root)) then ''local''
         else if probe_finds fs top_seg repo_root module_path then ''local''
         else ''third_party'')"
proof -
  have w: "\<And>t. walk_up fs t repo_root (parent module_path) \<noteq> ''local'' \<Longrightarrow>
      walk_up fs t repo_root (parent module_path) = ''third_party''"
    using walk_up_label by blast
  show ?thesis
    by (auto simp: classify_import_def Let_def probe_finds_def probed_dirs_def
          walk_up_dirs [symmetric] parent_def [symmetric] split: prod.splits dest: w)
qed

lemma packages_of_cache:
  assumes "cache repo_root = None \<or> cache repo_root = Some (scan_local_packages fs repo_root)"
  shows "fst (get_local_packages fs cache repo_root) = scan_local_packages fs repo_root"
  using assms by (auto simp: get_local_packages_def Let_def)

lemma probe_absent:
  assumes "\<And>p. \<not> fs_is_dir fs (p @ [n]) \<and> \<not> fs_is_file fs (p @ [n @ ''.py''])"
  shows "\<not> probe_finds fs n repo_root module_path"
  using assms by (simp add: probe_finds_def list_ex_iff)

lemma scan_package_dir:
  assumes "n \<in> set (fs_iterdir fs repo_root)" and "fs_is_dir fs (repo_root @ [n])"
    and "fs_exists fs (repo_root @ [n, ''__init__.py''])" and "n \<notin> set local_exclude"
    and "name_suffix n \<noteq> ''.py''"
  shows "n \<in> set (scan_local_packages fs repo_root)"
  using assms unfolding scan_local_packages_def by (auto intro!: bexI [of _ n])

text \<open>
  Claim C3. The classifier returns one of the three labels. It looks at the standard-library
  names first, then at the cached set of local packages, then probes the directories
  from the module upwards. \<^verbatim>\<open>import os\<close> is \<^verbatim>\<open>stdlib\<close>; \<^verbatim>\<open>import requests\<close> is
  \<^verbatim>\<open>third_party\<close> when nothing in the repository is named \<^verbatim>\<open>requests\<close>;
  \<^verbatim>\<open>from mypkg.sub import x\<close> is \<^verbatim>\<open>local\<close> when \<^verbatim>\<open>mypkg/__init__.py\<close> exists under the
  root. The cache holds nothing for the root, or what a scan of the root gives.
\<close>

theorem import_classification:
  fixes stdlib :: "string set" and fs cache repo_root module_path iname
  defines "label \<equiv> (\<lambda>n. fst (classify_import stdlib fs cache n repo_root module_path))"
  defines "top_seg \<equiv> hd (split_on CHR ''.'' iname)"
  defines "cache_fresh \<equiv>
     cache repo_root = None \<or> cache repo_root = Some (scan_local_packages fs repo_root)"
  shows "label iname \<in> {''stdlib'', ''local'', ''third_party''}
    \<and> (top_seg \<in> stdlib \<longrightarrow> label iname = ''stdlib'')
    \<and> (top_seg \<notin> stdlib \<and> top_seg \<in> set (fst (get_local_packages fs cache repo_root))
          \<longrightarrow> label iname = ''local'')
    \<and> (top_seg \<notin> stdlib \<and> top_seg \<notin> set (fst (get_local_packages fs cache repo_root))
          \<longrightarrow> label iname =
                (if probe_finds fs top_seg repo_root module_path then ''local''
                 else ''third_party''))
    \<and> (''os'' \<in> stdlib \<longrightarrow> label ''os'' = ''stdlib'')
    \<and> (''requests'' \<notin> stdlib \<and> cache_fresh
         \<and> (\<forall>p. \<not> fs_is_dir fs (p @ [''requests''])
                 \<and> \<not> fs_is_file fs (p @ [''requests.py'']))
          \<longrightarrow> label ''requests'' = ''third_party'')
    \<and> (''mypkg'' \<notin> stdlib \<and> cache_fresh
         \<and> ''mypkg'' \<in> set (fs_iterdir fs repo_root)
         \<and> fs_is_dir fs (repo_root @ [''mypkg''])
         \<and> fs_exists fs (repo_root @ [''mypkg'', ''__init__.py''])
          \<longrightarrow> label ''mypkg.sub'' = ''local'')"
proof (intro conjI impI)
  show "label iname \<in> {''stdlib'', ''local'', ''third_party''}"
    by (simp add: label_def classify_unfold Let_def)
  show "label iname = ''stdlib''" if "top_seg \<in> stdlib"
    using that by (simp add: label_def top_seg_def classify_unfold Let_def)
  show "label iname = ''local''"
    if "top_seg \<notin> stdlib \<and> top_seg \<in> set (fst (get_local_packages fs cache repo_root))"
    using that by (simp add: label_def top_seg_def classify_unfold Let_def)
  show "label iname =
      (if probe_finds fs top_seg repo_root module_path then ''local'' else ''third_party'')"
    if "top_seg \<notin> stdlib \<and> top_seg \<notin> set (fst (get_local_packages fs cache repo_root))"
    using that by (simp add: label_def top_seg_def classify_unfold Let_def)
  show "label ''os'' = ''stdlib''" if "''os'' \<in> stdlib"
    using that by (simp add: label_def classify_unfold)
  show "label ''requests'' = ''third_party''"
    if h: "''requests'' \<notin> stdlib \<and> cache_fresh
         \<and> (\<forall>p. \<not> fs_is_dir fs (p @ [''requests''])
                 \<and> \<not> fs_is_file fs (p @ [''requests.py'']))"
  proof -
    have a: "\<And>p. \<not> fs_is_dir fs (p @ [''requests''])
                 \<and> \<not> fs_is_file fs (p @ [''requests'' @ ''.py''])"
      using h by simp
    have "''requests'' \<notin> set (fst (get_local_packages fs cache repo_root))"
      using h scan_absent [OF a] by (simp add: packages_of_cache cache_fresh_def)
    moreover have "\<not> probe_finds fs ''requests'' repo_root module_path"
      using a by (rule probe_absent)
    ultimately show ?thesis using h by (simp add: label_def classify_unfold)
  qed
  show "label ''mypkg.sub'' = ''local''"
    if h: "''mypkg'' \<notin> stdlib \<and> cache_fresh
         \<and> ''mypkg'' \<in> set (fs_iterdir fs repo_root)
         \<and> fs_is_dir fs (repo_root @ [''mypkg''])
         \<and> fs_exists fs (repo_root @ [''mypkg'', ''__init__.py''])"
  proof -
    have "''mypkg'' \<in> set (scan_local_packages fs repo_root)"
      using h by (intro scan_package_dir)
        (simp_all add: local_exclude_def name_suffix_def rfind_dot_def upt_rec)
    then have "''mypkg'' \<in> set (fst (get_local_packages fs cache repo_root))"
      using h by (simp add: packages_of_cache cache_fresh_def)
    then show ?thesis using h by (simp add: label_def classify_unfold)
  qed
qed

lemma example_fs_no_requests:
  "\<not> fs_is_dir example_fs (p @ [''requests''])
   \<and> \<not> fs_is_file example_fs (p @ [''requests.py''])"
  by (auto simp: example_fs_def append_eq_Cons_conv)

theorem import_classification_witness:
  "''os'' \<in> {''os'', ''sys''}
   \<and> fst (classify_import {''os'', ''sys''} example_fs Map.empty ''os'' [''repo'']
            [''repo'', ''main.py'']) = ''stdlib''
   \<and> ''requests'' \<notin> {''os'', ''sys''}
   \<and> fst (classify_import {''os'', ''sys''} example_fs Map.empty ''requests'' [''repo'']
            [''repo'', ''main.py'']) = ''third_party''
   \<and> ''mypkg'' \<in> set (fs_iterdir example_fs [''repo''])
   \<and> fs_is_dir example_fs ([''repo''] @ [''mypkg''])
   \<and> fs_exists example_fs ([''repo''] @ [''mypkg'', ''__init__.py''])
   \<and> fst (classify_import {''os'', ''sys''} example_fs Map.empty ''mypkg.sub'' [''repo'']
            [''repo'', ''main.py'']) = ''local''"
proof -
  have fresh: "Map.empty [''repo''] = None
      \<or> Map.empty [''repo''] = Some (scan_local_packages example_fs [''repo''])"
    by simp
  have req: "\<forall>p. \<not> fs_is_dir example_fs (p @ [''requests''])
                 \<and> \<not> fs_is_file example_fs (p @ [''requests.py''])"
    using example_fs_no_requests by blast
  have pkg: "''mypkg'' \<in> set (fs_iterdir example_fs [''repo''])"
    "fs_is_dir example_fs ([''repo''] @ [''mypkg''])"
    "fs_exists example_fs ([''repo''] @ [''mypkg'', ''__init__.py''])"
    by (simp_all add: example_fs_def)
  from import_classification [where stdlib = "{''os'', ''sys''}" and fs = example_fs
      and cache = Map.empty and repo_root = "[''repo'']"
      and module_path = "[''repo'', ''main.py'']" and iname = "''os''"] fresh req pkg
  show ?thesis by simp
qed

section \<open>The package cache does not change what is computed\<close>









section \<open>Sequential and parallel analysis\<close>


















section \<open>The example repository of six files\<close>















end
